theory Spec2Isabelle
  imports Main
begin

section \<open>The importer of the quantized convolution operator\<close>

text \<open>
  A shallow embedding of \<^verbatim>\<open>ngraph/frontend/onnx_import/op/quant_conv.cpp\<close>:
  the helper \<^verbatim>\<open>make_ng_quant_conv\<close>, which emits one primitive or splits the
  convolution into one primitive per group, and the operator's entry point
  \<^verbatim>\<open>quant_conv\<close>, which validates the group count and picks the path.
\<close>

subsection \<open>Inputs of the operator\<close>

datatype element_type =
  boolean | bf16 | f16 | f32 | f64 | i8 | i16 | i32 | i64 | u8 | u16 | u32 | u64 | dynamic

text \<open>
  Modelled from the spec: the node class of the graph library is not part of this file.
  An input of the operator is an opaque handle to a node built earlier, of which the
  importer reads the shape and the element type, or the null node that stands for an
  optional input left out. The first field only tells two inputs apart.
\<close>

datatype tensor_ref =
    TensorRef (ident: nat) (shape: "nat list") (elem: element_type)
  | NullNode

text \<open>
  Modelled from the spec: the error classes and the macro \<^verbatim>\<open>ASSERT_VALID_ARGUMENT\<close>
  are declared in \<^verbatim>\<open>exceptions.hpp\<close>, not in this file. A failed check of the macro
  signals the validation error \<open>InvalidArgument\<close>; it holds the items that the call site
  streams into it, in order (the macro puts a description of the operator in front,
  which is left out). \<open>NotSupported\<close> is the unsupported-feature error, of another kind.
  The other outcomes are those of the language and the library: \<^verbatim>\<open>std::vector::at\<close>
  throws \<open>out_of_range\<close>; \<^verbatim>\<open>get_shape\<close> and \<^verbatim>\<open>get_element_type\<close> throw
  \<open>ngraph_error\<close> on the null node, which has no output; an unsigned remainder by zero
  is undefined in C++ (a trap on x86), the outcome \<open>Undefined_Behaviour\<close>.
\<close>

datatype message_item = Text string | Value int

datatype error =
    out_of_range
  | ngraph_error
  | InvalidArgument "message_item list"
  | NotSupported string
  | Undefined_Behaviour

definition is_null :: "tensor_ref \<Rightarrow> bool" where
  "is_null t = (case t of NullNode \<Rightarrow> True | TensorRef _ _ _ \<Rightarrow> False)"

definition get_shape :: "tensor_ref \<Rightarrow> error + nat list" where
  "get_shape t = (case t of NullNode \<Rightarrow> Inl ngraph_error | TensorRef _ s _ \<Rightarrow> Inr s)"

definition get_element_type :: "tensor_ref \<Rightarrow> error + element_type" where
  "get_element_type t = (case t of NullNode \<Rightarrow> Inl ngraph_error | TensorRef _ _ e \<Rightarrow> Inr e)"

text \<open>\<^verbatim>\<open>v.at(i)\<close>: the element, or \<open>out_of_range\<close>.\<close>

definition at :: "'a list \<Rightarrow> nat \<Rightarrow> error + 'a" where
  "at v i = (if i < length v then Inr (v ! i) else Inl out_of_range)"

text \<open>\<^verbatim>\<open>t->get_shape().at(i)\<close>.\<close>

definition get_shape_at :: "tensor_ref \<Rightarrow> nat \<Rightarrow> error + nat" where
  "get_shape_at t i = (case get_shape t of Inl e \<Rightarrow> Inl e | Inr s \<Rightarrow> at s i)"

text \<open>
  An exception leaves the function at the call that throws it: \<open>and_then r f\<close> goes
  on with \<open>f\<close> on the value of \<open>r\<close>, or stops with the error of \<open>r\<close>.
\<close>

definition and_then :: "error + 'a \<Rightarrow> ('a \<Rightarrow> error + 'b) \<Rightarrow> error + 'b" where
  "and_then r f = (case r of Inl e \<Rightarrow> Inl e | Inr x \<Rightarrow> f x)"

subsection \<open>Nodes the importer builds\<close>

type_synonym Strides = "nat list"
type_synonym CoordinateDiff = "int list"

text \<open>
  Modelled from the spec: the constructors of the graph library are external
  collaborators, each producing one node from its arguments. They are kept as terms: a
  slice with its lower and upper bounds, a concatenation with its axis, and the three
  builders of \<^verbatim>\<open>ngraph::builder::quantization\<close> with their arguments in the order
  of the calls. \<open>QuantizedLinearConvolution_zp\<close> is the overload of
  \<^verbatim>\<open>QuantizedLinearConvolution\<close> that takes a zero point after each scale.
\<close>

datatype ng_node =
    Leaf tensor_ref
  | Slice ng_node "nat list" "nat list"
  | Concat "ng_node list" nat
  | QuantizedLinearConvolution
      ng_node ng_node Strides Strides CoordinateDiff CoordinateDiff Strides
      tensor_ref tensor_ref tensor_ref
  | QuantizedLinearConvolution_zp
      ng_node ng_node Strides Strides CoordinateDiff CoordinateDiff Strides
      tensor_ref tensor_ref tensor_ref tensor_ref tensor_ref tensor_ref
  | QuantizedLinearConvolutionBias
      ng_node ng_node tensor_ref Strides Strides CoordinateDiff CoordinateDiff Strides
      tensor_ref tensor_ref tensor_ref

record OpScale =
  data_scale :: tensor_ref
  filter_scale :: tensor_ref
  output_scale :: tensor_ref

subsection \<open>The helper \<^verbatim>\<open>make_ng_quant_conv\<close>\<close>

text \<open>The vectors and the node list that the loop over the groups updates.\<close>

record group_vars =
  data_lower_bounds :: "nat list"
  data_upper_bounds :: "nat list"
  filters_lower_bounds :: "nat list"
  filters_upper_bounds :: "nat list"
  convolution_nodes :: "ng_node list"

text \<open>
  The loop \<^verbatim>\<open>for (std::size_t group{0}; group < groups; ++group)\<close>. Both slices
  are built before the bias is looked at. The products are \<open>size_t\<close> products; with
  \<open>group_i < groups\<close> and a group size that is the channel count divided by \<open>groups\<close>
  they stay below the channel count (lemma \<open>group_bounds_le\<close>), so they do not wrap.
\<close>

function group_loop ::
  "tensor_ref \<Rightarrow> tensor_ref \<Rightarrow> Strides \<Rightarrow> Strides \<Rightarrow> CoordinateDiff \<Rightarrow> CoordinateDiff
   \<Rightarrow> Strides \<Rightarrow> nat \<Rightarrow> OpScale \<Rightarrow> tensor_ref option \<Rightarrow> nat \<Rightarrow> nat \<Rightarrow> nat \<Rightarrow> group_vars
   \<Rightarrow> error + group_vars"
where
  "group_loop data filters strides filter_dilations padding_below padding_above
      data_dilations groups op_scale bias data_group_size filters_group_size group_i v =
    (if group_i < groups then
       let dl = (data_lower_bounds v)[1 := group_i * data_group_size];
           du = (data_upper_bounds v)[1 := (group_i + 1) * data_group_size];
           sliced_data = Slice (Leaf data) dl du;
           fl = (filters_lower_bounds v)[0 := group_i * filters_group_size];
           fu = (filters_upper_bounds v)[0 := (group_i + 1) * filters_group_size];
           sliced_filters = Slice (Leaf filters) fl fu
       in (case bias of
             Some b \<Rightarrow>
               Inl (NotSupported
                 ''Groups != 1 not supported for Quantized Convolution with bias.'')
           | None \<Rightarrow>
               group_loop data filters strides filter_dilations padding_below padding_above
                 data_dilations groups op_scale bias data_group_size filters_group_size
                 (group_i + 1)
                 \<lparr>data_lower_bounds = dl, data_upper_bounds = du,
                  filters_lower_bounds = fl, filters_upper_bounds = fu,
                  convolution_nodes = convolution_nodes v @
                    [QuantizedLinearConvolution sliced_data sliced_filters strides
                       filter_dilations padding_below padding_above data_dilations
                       (data_scale op_scale) (filter_scale op_scale)
                       (output_scale op_scale)]\<rparr>)
     else Inr v)"
  by pat_completeness auto
termination
  by (relation "measure (\<lambda>(data, filters, strides, filter_dilations, padding_below,
        padding_above, data_dilations, groups, op_scale, bias, data_group_size,
        filters_group_size, group_i, v). groups - group_i)") auto

declare group_loop.simps [simp del]

text \<open>
  \<open>groups\<close> is the helper's \<^verbatim>\<open>int\<close> parameter. In the branch \<open>groups > 1\<close> it is
  positive, so its conversion to \<open>size_t\<close> in the divisions and in the loop test keeps
  its value.
\<close>

definition make_ng_quant_conv ::
  "tensor_ref \<Rightarrow> tensor_ref \<Rightarrow> Strides \<Rightarrow> Strides \<Rightarrow> CoordinateDiff \<Rightarrow> CoordinateDiff
   \<Rightarrow> Strides \<Rightarrow> int \<Rightarrow> OpScale \<Rightarrow> tensor_ref option \<Rightarrow> error + ng_node"
where
  "make_ng_quant_conv data filters strides filter_dilations padding_below padding_above
      data_dilations groups op_scale bias =
    (if groups > 1 then
       and_then (get_shape_at data 1) (\<lambda>n_data_channels.
       and_then (get_shape_at filters 0) (\<lambda>n_filters_channels.
       and_then (get_shape data) (\<lambda>data_shape.
       and_then (get_shape filters) (\<lambda>filters_shape.
       and_then
         (group_loop data filters strides filter_dilations padding_below padding_above
            data_dilations (nat groups) op_scale bias
            (n_data_channels div nat groups) (n_filters_channels div nat groups) 0
            \<lparr>data_lower_bounds = replicate (length data_shape) 0,
             data_upper_bounds = data_shape,
             filters_lower_bounds = replicate (length filters_shape) 0,
             filters_upper_bounds = filters_shape,
             convolution_nodes = []\<rparr>)
         (\<lambda>v. Inr (Concat (convolution_nodes v) 1))))))
     else
       (case bias of
          Some b \<Rightarrow>
            Inr (QuantizedLinearConvolutionBias (Leaf data) (Leaf filters) b strides
                   filter_dilations padding_below padding_above data_dilations
                   (data_scale op_scale) (filter_scale op_scale) (output_scale op_scale))
        | None \<Rightarrow>
            Inr (QuantizedLinearConvolution (Leaf data) (Leaf filters) strides
                   filter_dilations padding_below padding_above data_dilations
                   (data_scale op_scale) (filter_scale op_scale) (output_scale op_scale))))"

subsection \<open>The entry point \<^verbatim>\<open>quant_conv\<close>\<close>

text \<open>
  The operator as the import layer hands it over: its inputs, its \<open>group\<close> attribute
  when the model gives one, and the sequences that the accessors of
  \<^verbatim>\<open>convpool\<close> return for it.
\<close>

record onnx_node =
  ng_inputs :: "tensor_ref list"
  group_attribute :: "int option"
  node_strides :: Strides
  node_dilations :: Strides
  node_kernel_shape :: "nat list"
  node_pads :: "CoordinateDiff \<times> CoordinateDiff"

text \<open>\<^verbatim>\<open>node.get_attribute_value<int64_t>("group", 1)\<close>.\<close>

definition get_group :: "onnx_node \<Rightarrow> int" where
  "get_group node = (case group_attribute node of None \<Rightarrow> 1 | Some g \<Rightarrow> g)"

text \<open>
  Modelled from the spec: the geometry accessors \<^verbatim>\<open>convpool::get_strides\<close>,
  \<^verbatim>\<open>get_dilations\<close>, \<^verbatim>\<open>get_kernel_shape\<close> and \<^verbatim>\<open>get_pads\<close> belong to the
  import layer. Each returns an ordered integer sequence derived from the operator
  (the pads as the pair below, above); the node carries what they return.
\<close>

definition get_strides :: "onnx_node \<Rightarrow> Strides" where
  "get_strides node = node_strides node"

definition get_dilations :: "onnx_node \<Rightarrow> Strides" where
  "get_dilations node = node_dilations node"

definition get_kernel_shape :: "onnx_node \<Rightarrow> nat list" where
  "get_kernel_shape node = node_kernel_shape node"

definition get_pads :: "onnx_node \<Rightarrow> CoordinateDiff \<times> CoordinateDiff" where
  "get_pads node = node_pads node"

text \<open>
  The helper takes the group count as an \<^verbatim>\<open>int\<close>, the entry point holds it as an
  \<^verbatim>\<open>int64_t\<close>: the call converts it, keeping the low 32 bits as a signed value.
\<close>

definition int_of_int64 :: "int \<Rightarrow> int" where
  "int_of_int64 g = (g + 2 ^ 31) mod 2 ^ 32 - 2 ^ 31"

text \<open>
  The condition of the first \<^verbatim>\<open>ASSERT_VALID_ARGUMENT\<close>, with the short circuit
  of \<open>&&\<close>: the shapes are read only once \<open>groups >= 0\<close> holds, and then the
  comparison with a \<open>size_t\<close> keeps the value of \<open>groups\<close>.
\<close>

definition group_in_bounds :: "int \<Rightarrow> tensor_ref \<Rightarrow> tensor_ref \<Rightarrow> error + bool" where
  "group_in_bounds groups data filters =
    (if groups \<ge> 0 then
       and_then (get_shape_at data 1) (\<lambda>c.
         if groups \<le> int c then
           and_then (get_shape_at filters 0) (\<lambda>f. Inr (groups \<le> int f))
         else Inr False)
     else Inr False)"

text \<open>
  \<^verbatim>\<open>n % groups == 0\<close> on \<open>size_t\<close>, reached with \<open>groups >= 0\<close> only: undefined
  when \<open>groups\<close> is zero.
\<close>

definition divisible_by_group :: "nat \<Rightarrow> int \<Rightarrow> error + bool" where
  "divisible_by_group n groups =
    (if groups = 0 then Inl Undefined_Behaviour else Inr (n mod nat groups = 0))"

definition quant_conv :: "onnx_node \<Rightarrow> error + ng_node list" where
  "quant_conv node =
    (let inputs = ng_inputs node in
     and_then (at inputs 0) (\<lambda>data.
     and_then (at inputs 3) (\<lambda>filters.
     let groups = get_group node in
     and_then (at inputs 1) (\<lambda>data_scale.
     and_then (at inputs 4) (\<lambda>filters_scale.
     and_then (at inputs 6) (\<lambda>output_scale.
     and_then (group_in_bounds groups data filters) (\<lambda>in_bounds.
     if \<not> in_bounds then
       Inl (InvalidArgument [Text ''incorrect value of 'group' attribute: '', Value groups])
     else
     and_then (get_shape_at data 1) (\<lambda>n_data_channels.
     and_then (get_shape_at filters 0) (\<lambda>n_filters_channels.
     and_then (divisible_by_group n_data_channels groups) (\<lambda>data_ok.
     if \<not> data_ok then
       Inl (InvalidArgument
         [Text ''provided group attribute value must be a multiple of data channels count.''])
     else
     and_then (divisible_by_group n_filters_channels groups) (\<lambda>filters_ok.
     if \<not> filters_ok then
       Inl (InvalidArgument
         [Text ''provided group attribute value must be a multiple of filter channels count.''])
     else
     let strides = get_strides node;
         filter_dilations = get_dilations node;
         data_dilations = replicate (length (get_kernel_shape node)) 1;
         paddings = get_pads node;
         padding_below = fst paddings;
         padding_above = snd paddings
     in
     if length inputs = 9 \<and> \<not> is_null (inputs ! 8) then
       and_then (at inputs 8) (\<lambda>bias.
       and_then
         (make_ng_quant_conv data filters strides filter_dilations padding_below
            padding_above data_dilations (int_of_int64 groups)
            \<lparr>data_scale = data_scale, filter_scale = filters_scale,
             output_scale = output_scale\<rparr> (Some bias))
         (\<lambda>conv_node. Inr [conv_node]))
     else
       and_then (get_element_type filters) (\<lambda>filters_type.
       if filters_type = u8 \<and> groups = 1 then
         and_then (at inputs 2) (\<lambda>data_zero_point.
         and_then (at inputs 5) (\<lambda>filters_zero_point.
         and_then (at inputs 7) (\<lambda>output_zero_point.
           Inr [QuantizedLinearConvolution_zp (Leaf data) (Leaf filters) strides
                  filter_dilations padding_below padding_above data_dilations
                  data_scale data_zero_point filters_scale filters_zero_point
                  output_scale output_zero_point])))
       else
         and_then
           (make_ng_quant_conv data filters strides filter_dilations padding_below
              padding_above data_dilations (int_of_int64 groups)
              \<lparr>data_scale = data_scale, filter_scale = filters_scale,
               output_scale = output_scale\<rparr> None)
           (\<lambda>conv_node. Inr [conv_node])))))))))))))"

subsection \<open>Names for the parts of a conversion\<close>

text \<open>
  The call that the loop of \<open>make_ng_quant_conv\<close> makes for the group \<open>i\<close>, from the
  bounds vectors \<open>v\<close> it starts with: the loop only writes the entry of the channel axis.
\<close>

definition group_call ::
  "tensor_ref \<Rightarrow> tensor_ref \<Rightarrow> Strides \<Rightarrow> Strides \<Rightarrow> CoordinateDiff \<Rightarrow> CoordinateDiff
   \<Rightarrow> Strides \<Rightarrow> OpScale \<Rightarrow> nat \<Rightarrow> nat \<Rightarrow> group_vars \<Rightarrow> nat \<Rightarrow> ng_node"
where
  "group_call data filters strides filter_dilations padding_below padding_above
      data_dilations op_scale data_group_size filters_group_size v i =
    QuantizedLinearConvolution
      (Slice (Leaf data) ((data_lower_bounds v)[1 := i * data_group_size])
         ((data_upper_bounds v)[1 := (i + 1) * data_group_size]))
      (Slice (Leaf filters) ((filters_lower_bounds v)[0 := i * filters_group_size])
         ((filters_upper_bounds v)[0 := (i + 1) * filters_group_size]))
      strides filter_dilations padding_below padding_above data_dilations
      (data_scale op_scale) (filter_scale op_scale) (output_scale op_scale)"

definition initial_vars :: "nat list \<Rightarrow> nat list \<Rightarrow> group_vars" where
  "initial_vars data_shape filters_shape =
    \<lparr>data_lower_bounds = replicate (length data_shape) 0,
     data_upper_bounds = data_shape,
     filters_lower_bounds = replicate (length filters_shape) 0,
     filters_upper_bounds = filters_shape,
     convolution_nodes = []\<rparr>"

text \<open>The test of \<open>quant_conv\<close> for a bias: nine inputs, the ninth not null.\<close>

definition has_bias :: "onnx_node \<Rightarrow> bool" where
  "has_bias node = (length (ng_inputs node) = 9 \<and> \<not> is_null (ng_inputs node ! 8))"

text \<open>The scales \<open>quant_conv\<close> is given: the inputs 1, 4 and 6.\<close>

definition op_scale_of :: "onnx_node \<Rightarrow> OpScale" where
  "op_scale_of node =
    \<lparr>data_scale = ng_inputs node ! 1, filter_scale = ng_inputs node ! 4,
     output_scale = ng_inputs node ! 6\<rparr>"

text \<open>The two calls of \<open>quant_conv\<close> to the helper, and its direct call of the builder.\<close>

definition helper_call :: "onnx_node \<Rightarrow> tensor_ref option \<Rightarrow> error + ng_node" where
  "helper_call node bias =
    make_ng_quant_conv (ng_inputs node ! 0) (ng_inputs node ! 3) (get_strides node)
      (get_dilations node) (fst (get_pads node)) (snd (get_pads node))
      (replicate (length (get_kernel_shape node)) 1) (int_of_int64 (get_group node))
      (op_scale_of node) bias"

definition fast_path_call :: "onnx_node \<Rightarrow> ng_node" where
  "fast_path_call node =
    QuantizedLinearConvolution_zp (Leaf (ng_inputs node ! 0)) (Leaf (ng_inputs node ! 3))
      (get_strides node) (get_dilations node) (fst (get_pads node)) (snd (get_pads node))
      (replicate (length (get_kernel_shape node)) 1)
      (ng_inputs node ! 1) (ng_inputs node ! 2) (ng_inputs node ! 4) (ng_inputs node ! 5)
      (ng_inputs node ! 6) (ng_inputs node ! 7)"

subsection \<open>Operators that pass the validation\<close>

text \<open>
  Eight or nine inputs; the data has a channel axis (axis 1) and the filters an
  output-channel axis (axis 0).
\<close>

definition inputs_ok :: "onnx_node \<Rightarrow> bool" where
  "inputs_ok node =
    ((length (ng_inputs node) = 8 \<or> length (ng_inputs node) = 9) \<and>
     \<not> is_null (ng_inputs node ! 0) \<and> 1 < length (shape (ng_inputs node ! 0)) \<and>
     \<not> is_null (ng_inputs node ! 3) \<and> 0 < length (shape (ng_inputs node ! 3)))"

definition data_channels :: "onnx_node \<Rightarrow> nat" where
  "data_channels node = shape (ng_inputs node ! 0) ! 1"

definition filter_output_channels :: "onnx_node \<Rightarrow> nat" where
  "filter_output_channels node = shape (ng_inputs node ! 3) ! 0"

definition filter_is_u8 :: "onnx_node \<Rightarrow> bool" where
  "filter_is_u8 node = (get_element_type (ng_inputs node ! 3) = Inr u8)"

text \<open>The invariants of the group count, as the specification lists them.\<close>

definition group_invariants :: "onnx_node \<Rightarrow> bool" where
  "group_invariants node =
    (1 \<le> get_group node \<and>
     get_group node \<le> int (data_channels node) \<and>
     get_group node \<le> int (filter_output_channels node) \<and>
     data_channels node mod nat (get_group node) = 0 \<and>
     filter_output_channels node mod nat (get_group node) = 0)"

text \<open>The largest value of the helper's \<^verbatim>\<open>int\<close> parameter.\<close>

definition INT_MAX :: int where
  "INT_MAX = 2147483647"

subsection \<open>The decision tree\<close>

text \<open>
  The four leaves of the decision tree. The outcome of a conversion tells which one
  ran: the group assembler ends in a concatenation or in the unsupported-feature
  error, each of the other three in its own builder.
\<close>

datatype leaf = Group_Assembler | Fast_Path | Bias_Fused | Plain

definition leaf_of_node :: "ng_node \<Rightarrow> leaf option" where
  "leaf_of_node c =
    (case c of
       Concat _ _ \<Rightarrow> Some Group_Assembler
     | QuantizedLinearConvolution _ _ _ _ _ _ _ _ _ _ \<Rightarrow> Some Plain
     | QuantizedLinearConvolution_zp _ _ _ _ _ _ _ _ _ _ _ _ _ \<Rightarrow> Some Fast_Path
     | QuantizedLinearConvolutionBias _ _ _ _ _ _ _ _ _ _ _ \<Rightarrow> Some Bias_Fused
     | _ \<Rightarrow> None)"

definition leaf_executed :: "error + ng_node list \<Rightarrow> leaf option" where
  "leaf_executed r =
    (case r of
       Inl e \<Rightarrow> (case e of NotSupported _ \<Rightarrow> Some Group_Assembler | _ \<Rightarrow> None)
     | Inr ns \<Rightarrow> (case ns of [c] \<Rightarrow> leaf_of_node c | _ \<Rightarrow> None))"

text \<open>
  The decision tree in the specification's words: the fast path is tested before the
  bias.
\<close>

definition spec_decision_tree :: "int \<Rightarrow> bool \<Rightarrow> bool \<Rightarrow> leaf" where
  "spec_decision_tree g bias fast_precision =
    (if g > 1 then Group_Assembler
     else if fast_precision \<and> g = 1 then Fast_Path
     else if bias then Bias_Fused
     else Plain)"

text \<open>The tree with the bias tested first, as \<open>quant_conv\<close> tests it.\<close>

definition bias_first_tree :: "int \<Rightarrow> bool \<Rightarrow> bool \<Rightarrow> leaf" where
  "bias_first_tree g bias fast_precision =
    (if g > 1 then Group_Assembler
     else if bias then Bias_Fused
     else if fast_precision \<and> g = 1 then Fast_Path
     else Plain)"

subsection \<open>Channel ranges and channel counts\<close>

text \<open>
  The half-open range of the group \<open>i\<close> of \<open>g\<close> along an axis of the given size, in the
  specification's words: from \<open>i * size / g\<close> up to \<open>(i + 1) * size / g\<close>.
\<close>

definition spec_range :: "nat \<Rightarrow> nat \<Rightarrow> nat \<Rightarrow> nat set" where
  "spec_range size_of_axis g i = {i * size_of_axis div g ..< (i + 1) * size_of_axis div g}"

text \<open>
  Modelled from the spec: the shape inference of the graph library's constructors is not
  part of this file. Along the output-channel axis it gives a primitive as many channels
  as its filter argument has along axis 0 (the filter argument being an input or a slice
  with unit strides, whose extent is upper minus lower bound), and a concatenation along
  axis 1 the sum of the channels of its parts.
\<close>

definition filter_extent :: "ng_node \<Rightarrow> nat" where
  "filter_extent f =
    (case f of
       Leaf t \<Rightarrow> (case t of TensorRef _ s _ \<Rightarrow> s ! 0 | NullNode \<Rightarrow> 0)
     | Slice _ lower upper \<Rightarrow> upper ! 0 - lower ! 0
     | _ \<Rightarrow> 0)"

fun output_channels :: "ng_node \<Rightarrow> nat" where
  "output_channels (Leaf t) = (case t of TensorRef _ s _ \<Rightarrow> s ! 1 | NullNode \<Rightarrow> 0)"
| "output_channels (Slice _ lower upper) = upper ! 1 - lower ! 1"
| "output_channels (Concat ns axis) =
     (if axis = 1 then sum_list (map output_channels ns)
      else (case ns of [] \<Rightarrow> 0 | n # _ \<Rightarrow> output_channels n))"
| "output_channels (QuantizedLinearConvolution _ f _ _ _ _ _ _ _ _) = filter_extent f"
| "output_channels (QuantizedLinearConvolution_zp _ f _ _ _ _ _ _ _ _ _ _ _) = filter_extent f"
| "output_channels (QuantizedLinearConvolutionBias _ f _ _ _ _ _ _ _ _ _) = filter_extent f"

subsection \<open>The message of an error\<close>

text \<open>The streamed items in order, an integer in decimal.\<close>

function decimal :: "nat \<Rightarrow> string" where
  "decimal n =
    (if n < 10 then [char_of (48 + n)]
     else decimal (n div 10) @ [char_of (48 + n mod 10)])"
  by pat_completeness auto
termination
  by (relation "measure (\<lambda>n. n)") auto

declare decimal.simps [simp del]

definition show_int :: "int \<Rightarrow> string" where
  "show_int i = (if i < 0 then CHR ''-'' # decimal (nat (- i)) else decimal (nat i))"

definition item_text :: "message_item \<Rightarrow> string" where
  "item_text item = (case item of Text s \<Rightarrow> s | Value i \<Rightarrow> show_int i)"

definition what :: "error \<Rightarrow> string" where
  "what e =
    (case e of
       InvalidArgument items \<Rightarrow> concat (map item_text items)
     | NotSupported s \<Rightarrow> s
     | _ \<Rightarrow> [])"

fun contains :: "string \<Rightarrow> string \<Rightarrow> bool" where
  "contains pat [] = (pat = [])"
| "contains pat (c # cs) = (take (length pat) (c # cs) = pat \<or> contains pat cs)"

text \<open>An error names a value when its message contains the value in decimal.\<close>

definition names :: "error \<Rightarrow> int \<Rightarrow> bool" where
  "names e v = contains (show_int v) (what e)"

text \<open>The decimal digits, by their character codes.\<close>

definition is_digit :: "char \<Rightarrow> bool" where
  "is_digit c = (48 \<le> (of_char c :: nat) \<and> (of_char c :: nat) \<le> 57)"

subsection \<open>Reading a result\<close>

text \<open>The builder calls inside a result, and the arguments of one.\<close>

fun primitive_calls :: "ng_node \<Rightarrow> ng_node list" where
  "primitive_calls (Leaf _) = []"
| "primitive_calls (Slice _ _ _) = []"
| "primitive_calls (Concat ns _) = concat (map primitive_calls ns)"
| "primitive_calls (QuantizedLinearConvolution d f s fd pb pa dd ds fs os) =
     [QuantizedLinearConvolution d f s fd pb pa dd ds fs os]"
| "primitive_calls (QuantizedLinearConvolution_zp d f s fd pb pa dd ds dz fs fz os oz) =
     [QuantizedLinearConvolution_zp d f s fd pb pa dd ds dz fs fz os oz]"
| "primitive_calls (QuantizedLinearConvolutionBias d f b s fd pb pa dd ds fs os) =
     [QuantizedLinearConvolutionBias d f b s fd pb pa dd ds fs os]"

definition is_primitive :: "ng_node \<Rightarrow> bool" where
  "is_primitive c =
    (case c of
       QuantizedLinearConvolution _ _ _ _ _ _ _ _ _ _ \<Rightarrow> True
     | QuantizedLinearConvolution_zp _ _ _ _ _ _ _ _ _ _ _ _ _ \<Rightarrow> True
     | QuantizedLinearConvolutionBias _ _ _ _ _ _ _ _ _ _ _ \<Rightarrow> True
     | _ \<Rightarrow> False)"


definition is_bias_fused :: "ng_node \<Rightarrow> bool" where
  "is_bias_fused c =
    (case c of QuantizedLinearConvolutionBias _ _ _ _ _ _ _ _ _ _ _ \<Rightarrow> True | _ \<Rightarrow> False)"

definition data_dilations_of :: "ng_node \<Rightarrow> Strides option" where
  "data_dilations_of c =
    (case c of
       QuantizedLinearConvolution _ _ _ _ _ _ dd _ _ _ \<Rightarrow> Some dd
     | QuantizedLinearConvolution_zp _ _ _ _ _ _ dd _ _ _ _ _ _ \<Rightarrow> Some dd
     | QuantizedLinearConvolutionBias _ _ _ _ _ _ _ dd _ _ _ \<Rightarrow> Some dd
     | _ \<Rightarrow> None)"

definition scales_of :: "ng_node \<Rightarrow> OpScale option" where
  "scales_of c =
    (case c of
       QuantizedLinearConvolution _ _ _ _ _ _ _ ds fs os \<Rightarrow>
         Some \<lparr>data_scale = ds, filter_scale = fs, output_scale = os\<rparr>
     | QuantizedLinearConvolution_zp _ _ _ _ _ _ _ ds _ fs _ os _ \<Rightarrow>
         Some \<lparr>data_scale = ds, filter_scale = fs, output_scale = os\<rparr>
     | QuantizedLinearConvolutionBias _ _ _ _ _ _ _ _ ds fs os \<Rightarrow>
         Some \<lparr>data_scale = ds, filter_scale = fs, output_scale = os\<rparr>
     | _ \<Rightarrow> None)"

subsection \<open>Operators to run the conversion on\<close>

text \<open>
  An operator over a data tensor with the given channel count and filters of the given
  shape and element type, with scalar scales and zero points; \<open>extra\<close> is empty or holds
  the ninth input.
\<close>

definition example_node ::
  "nat \<Rightarrow> nat list \<Rightarrow> element_type \<Rightarrow> int option \<Rightarrow> tensor_ref list \<Rightarrow> onnx_node"
where
  "example_node channels filters_shape filters_type g extra =
    \<lparr>ng_inputs =
       [TensorRef 0 [1, channels, 5, 5] u8, TensorRef 1 [] f32, TensorRef 2 [] u8,
        TensorRef 3 filters_shape filters_type, TensorRef 4 [] f32, TensorRef 5 [] u8,
        TensorRef 6 [] f32, TensorRef 7 [] u8] @ extra,
     group_attribute = g,
     node_strides = [1, 1], node_dilations = [1, 1], node_kernel_shape = [3, 3],
     node_pads = ([0, 0], [0, 0])\<rparr>"

definition example_bias :: tensor_ref where
  "example_bias = TensorRef 8 [8] i32"

text \<open>The call for the group \<open>i\<close> when eight channels are split into two groups.\<close>

definition example_call :: "nat \<Rightarrow> ng_node" where
  "example_call i =
    QuantizedLinearConvolution
      (Slice (Leaf (TensorRef 0 [1, 8, 5, 5] u8)) [0, 4 * i, 0, 0] [1, 4 * (i + 1), 5, 5])
      (Slice (Leaf (TensorRef 3 [8, 4, 3, 3] i8)) [4 * i, 0, 0, 0] [4 * (i + 1), 4, 3, 3])
      [1, 1] [1, 1] [0, 0] [0, 0] [1, 1]
      (TensorRef 1 [] f32) (TensorRef 4 [] f32) (TensorRef 6 [] f32)"

text \<open>
  The call for the group \<open>i\<close> when 4294967299 channels are split into three groups of
  1431655766.
\<close>

definition narrowed_call :: "nat \<Rightarrow> ng_node" where
  "narrowed_call i =
    QuantizedLinearConvolution
      (Slice (Leaf (TensorRef 0 [1, 4294967299, 5, 5] u8))
         [0, 1431655766 * i, 0, 0] [1, 1431655766 * (i + 1), 5, 5])
      (Slice (Leaf (TensorRef 3 [4294967299, 1, 3, 3] i8))
         [1431655766 * i, 0, 0, 0] [1431655766 * (i + 1), 1, 3, 3])
      [1, 1] [1, 1] [0, 0] [0, 0] [1, 1]
      (TensorRef 1 [] f32) (TensorRef 4 [] f32) (TensorRef 6 [] f32)"

section \<open>Facts about the helper and the entry point\<close>

lemma and_then_Inr [simp]: "and_then (Inr x) f = f x"
  by (simp add: and_then_def)

lemma and_then_Inl [simp]: "and_then (Inl e) f = Inl e"
  by (simp add: and_then_def)

text \<open>The bounds the loop writes stay within the channel count: no product wraps.\<close>

lemma group_bounds_le:
  assumes "group_i < groups"
  shows "(group_i + 1) * (n div groups) \<le> (n :: nat)"
proof -
  have "(group_i + 1) * (n div groups) \<le> groups * (n div groups)"
    using assms by (intro mult_le_mono1) simp
  also have "\<dots> \<le> n" by simp
  finally show ?thesis .
qed

text \<open>
  Without a bias the loop returns, with one call per remaining group appended; with a
  bias its first round throws.
\<close>

lemma group_loop_no_bias:
  "\<exists>v'. group_loop data filters st fd pb pa dd groups sc None dgs fgs group_i v = Inr v' \<and>
     convolution_nodes v' = convolution_nodes v @
       map (group_call data filters st fd pb pa dd sc dgs fgs v) [group_i..<groups]"
proof (induction "groups - group_i" arbitrary: group_i v)
  case 0
  then show ?case by (simp add: group_loop.simps)
next
  case (Suc k)
  then have lt: "group_i < groups" and k: "k = groups - (group_i + 1)" by simp_all
  let ?v1 = "\<lparr>data_lower_bounds = (data_lower_bounds v)[1 := group_i * dgs],
      data_upper_bounds = (data_upper_bounds v)[1 := (group_i + 1) * dgs],
      filters_lower_bounds = (filters_lower_bounds v)[0 := group_i * fgs],
      filters_upper_bounds = (filters_upper_bounds v)[0 := (group_i + 1) * fgs],
      convolution_nodes = convolution_nodes v @
        [group_call data filters st fd pb pa dd sc dgs fgs v group_i]\<rparr>"
  from Suc.hyps(1) [OF k, of ?v1] obtain v' where
    run: "group_loop data filters st fd pb pa dd groups sc None dgs fgs (group_i + 1) ?v1 = Inr v'"
    and nodes: "convolution_nodes v' = convolution_nodes ?v1 @
       map (group_call data filters st fd pb pa dd sc dgs fgs ?v1) [group_i + 1..<groups]"
    by blast
  have same: "group_call data filters st fd pb pa dd sc dgs fgs ?v1
      = group_call data filters st fd pb pa dd sc dgs fgs v"
    by (rule ext) (simp add: group_call_def)
  have step: "group_loop data filters st fd pb pa dd groups sc None dgs fgs group_i v
      = group_loop data filters st fd pb pa dd groups sc None dgs fgs (group_i + 1) ?v1"
    using lt by (subst group_loop.simps) (simp add: group_call_def Let_def)
  have "[group_i..<groups] = group_i # [group_i + 1..<groups]"
    using lt by (simp add: upt_conv_Cons)
  with run nodes same step show ?case by simp
qed

lemma group_loop_bias:
  "group_i < groups \<Longrightarrow>
   group_loop data filters st fd pb pa dd groups sc (Some b) dgs fgs group_i v =
     Inl (NotSupported ''Groups != 1 not supported for Quantized Convolution with bias.'')"
  by (subst group_loop.simps) (simp add: Let_def)

lemma make_ng_quant_conv_groups:
  assumes "1 < groups" "get_shape data = Inr ds" "1 < length ds"
    "get_shape filters = Inr fs" "0 < length fs"
  shows "make_ng_quant_conv data filters st fd pb pa dd groups sc None =
    Inr (Concat (map (group_call data filters st fd pb pa dd sc
                        (ds ! 1 div nat groups) (fs ! 0 div nat groups) (initial_vars ds fs))
                   [0..<nat groups]) 1)"
proof -
  obtain v' where
    "group_loop data filters st fd pb pa dd (nat groups) sc None
        (ds ! 1 div nat groups) (fs ! 0 div nat groups) 0 (initial_vars ds fs) = Inr v'"
    "convolution_nodes v' = convolution_nodes (initial_vars ds fs) @
       map (group_call data filters st fd pb pa dd sc
              (ds ! 1 div nat groups) (fs ! 0 div nat groups) (initial_vars ds fs))
         [0..<nat groups]"
    using group_loop_no_bias by blast
  then show ?thesis
    using assms by (simp add: make_ng_quant_conv_def get_shape_at_def at_def initial_vars_def)
qed

lemma make_ng_quant_conv_bias_groups:
  assumes "1 < groups" "get_shape data = Inr ds" "1 < length ds"
    "get_shape filters = Inr fs" "0 < length fs"
  shows "make_ng_quant_conv data filters st fd pb pa dd groups sc (Some b) =
    Inl (NotSupported ''Groups != 1 not supported for Quantized Convolution with bias.'')"
  using assms by (simp add: make_ng_quant_conv_def get_shape_at_def at_def group_loop_bias)

lemma make_ng_quant_conv_single:
  "\<not> 1 < groups \<Longrightarrow>
   make_ng_quant_conv data filters st fd pb pa dd groups sc bias =
     Inr (case bias of
            Some b \<Rightarrow> QuantizedLinearConvolutionBias (Leaf data) (Leaf filters) b st fd pb pa dd
                        (data_scale sc) (filter_scale sc) (output_scale sc)
          | None \<Rightarrow> QuantizedLinearConvolution (Leaf data) (Leaf filters) st fd pb pa dd
                        (data_scale sc) (filter_scale sc) (output_scale sc))"
  by (simp add: make_ng_quant_conv_def split: option.splits)

lemma make_ng_quant_conv_Inr_groups:
  assumes "make_ng_quant_conv data filters st fd pb pa dd groups sc bias = Inr r" "1 < groups"
  shows "bias = None \<and> (\<exists>dgs fgs v. r =
     Concat (map (group_call data filters st fd pb pa dd sc dgs fgs v) [0..<nat groups]) 1)"
proof -
  from assms obtain ds fs where s: "get_shape data = Inr ds" "get_shape filters = Inr fs"
      and l: "1 < length ds" "0 < length fs"
    by (auto simp: make_ng_quant_conv_def get_shape_at_def and_then_def at_def
          split: sum.splits if_splits)
  show ?thesis
  proof (cases bias)
    case None
    with assms s l show ?thesis
      using make_ng_quant_conv_groups [OF assms(2) s(1) l(1) s(2) l(2), of st fd pb pa dd sc]
      by auto
  next
    case (Some b)
    with assms s l show ?thesis
      using make_ng_quant_conv_bias_groups [OF assms(2) s(1) l(1) s(2) l(2), of st fd pb pa dd sc b]
      by auto
  qed
qed

text \<open>A conversion that returns went through exactly one of the three calls.\<close>

lemma quant_conv_Inr:
  assumes "quant_conv node = Inr ns"
  shows "7 \<le> length (ng_inputs node) \<and>
    ((has_bias node \<and> (\<exists>c. helper_call node (Some (ng_inputs node ! 8)) = Inr c \<and> ns = [c])) \<or>
     (\<not> has_bias node \<and> get_element_type (ng_inputs node ! 3) = Inr u8 \<and> get_group node = 1 \<and>
        8 \<le> length (ng_inputs node) \<and> ns = [fast_path_call node]) \<or>
     (\<not> has_bias node \<and> \<not> (get_element_type (ng_inputs node ! 3) = Inr u8 \<and> get_group node = 1) \<and>
        (\<exists>c. helper_call node None = Inr c \<and> ns = [c])))"
  using assms
  unfolding quant_conv_def has_bias_def helper_call_def fast_path_call_def op_scale_of_def
  by (auto simp: Let_def at_def and_then_def split: sum.splits if_splits)



lemma get_shape_not_null: "\<not> is_null t \<Longrightarrow> get_shape t = Inr (shape t)"
  by (cases t) (simp_all add: is_null_def get_shape_def)

lemma get_element_type_not_null: "\<not> is_null t \<Longrightarrow> get_element_type t = Inr (elem t)"
  by (cases t) (simp_all add: is_null_def get_element_type_def)

lemma quant_conv_validated:
  assumes "inputs_ok node" "group_invariants node"
  shows "quant_conv node =
    (if has_bias node then
       and_then (helper_call node (Some (ng_inputs node ! 8))) (\<lambda>c. Inr [c])
     else if filter_is_u8 node \<and> get_group node = 1 then Inr [fast_path_call node]
     else and_then (helper_call node None) (\<lambda>c. Inr [c]))"
proof -
  let ?inputs = "ng_inputs node"
  from assms(1) have len: "8 \<le> length ?inputs"
    and d: "get_shape (?inputs ! 0) = Inr (shape (?inputs ! 0))" "1 < length (shape (?inputs ! 0))"
    and f: "get_shape (?inputs ! 3) = Inr (shape (?inputs ! 3))" "0 < length (shape (?inputs ! 3))"
    and e: "get_element_type (?inputs ! 3) = Inr (elem (?inputs ! 3))"
    by (auto simp: inputs_ok_def get_shape_not_null get_element_type_not_null)
  from assms(2) have g: "0 \<le> get_group node" "get_group node \<noteq> 0"
    "get_group node \<le> int (shape (?inputs ! 0) ! 1)"
    "get_group node \<le> int (shape (?inputs ! 3) ! 0)"
    "shape (?inputs ! 0) ! 1 mod nat (get_group node) = 0"
    "shape (?inputs ! 3) ! 0 mod nat (get_group node) = 0"
    by (auto simp: group_invariants_def data_channels_def filter_output_channels_def)
  have b: "group_in_bounds (get_group node) (?inputs ! 0) (?inputs ! 3) = Inr True"
    using d f g by (simp add: group_in_bounds_def get_shape_at_def at_def)
  have ats: "at ?inputs 0 = Inr (?inputs ! 0)" "at ?inputs (Suc 0) = Inr (?inputs ! 1)"
    "at ?inputs 2 = Inr (?inputs ! 2)" "at ?inputs 3 = Inr (?inputs ! 3)"
    "at ?inputs 4 = Inr (?inputs ! 4)" "at ?inputs 5 = Inr (?inputs ! 5)"
    "at ?inputs 6 = Inr (?inputs ! 6)" "at ?inputs 7 = Inr (?inputs ! 7)"
    using len by (auto simp: at_def)
  have sh: "get_shape_at (?inputs ! 0) (Suc 0) = Inr (shape (?inputs ! 0) ! 1)"
    "get_shape_at (?inputs ! 3) 0 = Inr (shape (?inputs ! 3) ! 0)"
    using d f by (simp_all add: get_shape_at_def at_def)
  have dv: "divisible_by_group (shape (?inputs ! 0) ! 1) (get_group node) = Inr True"
    "divisible_by_group (shape (?inputs ! 3) ! 0) (get_group node) = Inr True"
    using g by (simp_all add: divisible_by_group_def)
  have at8: "length ?inputs = 9 \<Longrightarrow> at ?inputs 8 = Inr (?inputs ! 8)"
    by (simp add: at_def)
  show ?thesis
    using ats sh e g
    unfolding quant_conv_def has_bias_def helper_call_def fast_path_call_def op_scale_of_def
      filter_is_u8_def
    by (simp add: Let_def divisible_by_group_def group_in_bounds_def at8)
qed

lemma group_call_primitive [simp]:
  "primitive_calls (group_call data filters st fd pb pa dd sc dgs fgs v i) =
     [group_call data filters st fd pb pa dd sc dgs fgs v i]"
  "scales_of (group_call data filters st fd pb pa dd sc dgs fgs v i) = Some sc"
  "data_dilations_of (group_call data filters st fd pb pa dd sc dgs fgs v i) = Some dd"
  "is_primitive (group_call data filters st fd pb pa dd sc dgs fgs v i)"
  "\<not> is_bias_fused (group_call data filters st fd pb pa dd sc dgs fgs v i)"
  by (simp_all add: group_call_def scales_of_def data_dilations_of_def is_primitive_def
      is_bias_fused_def)

lemma concat_map_singletons: "(\<And>x. x \<in> set xs \<Longrightarrow> f (g x) = [g x]) \<Longrightarrow> concat (map f (map g xs)) = map g xs"
  by (induction xs) simp_all

lemma make_ng_quant_conv_Inr:
  assumes "make_ng_quant_conv data filters st fd pb pa dd groups sc bias = Inr r"
  shows "(1 < groups \<and> bias = None \<and> (\<exists>dgs fgs v. r =
            Concat (map (group_call data filters st fd pb pa dd sc dgs fgs v) [0..<nat groups]) 1)) \<or>
         (\<not> 1 < groups \<and> bias = None \<and> r =
            QuantizedLinearConvolution (Leaf data) (Leaf filters) st fd pb pa dd
              (data_scale sc) (filter_scale sc) (output_scale sc)) \<or>
         (\<not> 1 < groups \<and> (\<exists>b. bias = Some b \<and> r =
            QuantizedLinearConvolutionBias (Leaf data) (Leaf filters) b st fd pb pa dd
              (data_scale sc) (filter_scale sc) (output_scale sc)))"
proof (cases "1 < groups")
  case True
  with make_ng_quant_conv_Inr_groups [OF assms] show ?thesis by simp
next
  case False
  with assms make_ng_quant_conv_single [OF False, of data filters st fd pb pa dd sc bias]
  show ?thesis by (cases bias) auto
qed

lemma make_ng_quant_conv_None_error:
  assumes "make_ng_quant_conv data filters st fd pb pa dd groups sc None = Inl e"
  shows "e = out_of_range \<or> e = ngraph_error"
proof (cases "1 < groups")
  case False
  with assms show ?thesis by (simp add: make_ng_quant_conv_single)
next
  case True
  show ?thesis
  proof (cases "\<exists>ds fs. get_shape data = Inr ds \<and> 1 < length ds \<and> get_shape filters = Inr fs \<and> 0 < length fs")
    case True
    then obtain ds fs where "get_shape data = Inr ds" "1 < length ds"
      "get_shape filters = Inr fs" "0 < length fs" by blast
    from make_ng_quant_conv_groups [OF \<open>1 < groups\<close> this] assms show ?thesis by simp
  next
    case False
    with assms \<open>1 < groups\<close> show ?thesis
      by (auto simp: make_ng_quant_conv_def get_shape_at_def get_shape_def and_then_def at_def
          split: sum.splits if_splits tensor_ref.splits)
  qed
qed

lemma not_supported_needs_bias:
  assumes "quant_conv node = Inl (NotSupported m)"
  shows "has_bias node"
proof (rule ccontr)
  assume nb: "\<not> has_bias node"
  have h: "helper_call node None \<noteq> Inl (NotSupported m)"
    using make_ng_quant_conv_None_error unfolding helper_call_def by fastforce
  from assms nb h show False
    unfolding quant_conv_def has_bias_def helper_call_def op_scale_of_def
    by (auto simp: Let_def at_def and_then_def get_shape_at_def get_shape_def
        get_element_type_def group_in_bounds_def divisible_by_group_def
        split: sum.splits if_splits tensor_ref.splits)
qed

lemma quant_conv_null_bias:
  assumes "length xs = 8" "is_null b"
  shows "quant_conv (node\<lparr>ng_inputs := xs @ [b]\<rparr>) = quant_conv (node\<lparr>ng_inputs := xs\<rparr>)"
proof -
  have ats: "at (xs @ [b]) 0 = at xs 0" "at (xs @ [b]) (Suc 0) = at xs (Suc 0)"
    "at (xs @ [b]) 2 = at xs 2" "at (xs @ [b]) 3 = at xs 3" "at (xs @ [b]) 4 = at xs 4"
    "at (xs @ [b]) 5 = at xs 5" "at (xs @ [b]) 6 = at xs 6" "at (xs @ [b]) 7 = at xs 7"
    using assms(1) by (simp_all add: at_def nth_append)
  show ?thesis
    using assms
    by (simp add: quant_conv_def Let_def ats get_group_def get_strides_def get_dilations_def
        get_kernel_shape_def get_pads_def nth_append cong: if_cong)
qed

lemma example_with_null:
  "example_node c fs t g [NullNode] =
     (example_node c fs t g [])\<lparr>ng_inputs := ng_inputs (example_node c fs t g []) @ [NullNode]\<rparr>"
  "example_node c fs t g [] =
     (example_node c fs t g [])\<lparr>ng_inputs := ng_inputs (example_node c fs t g [])\<rparr>"
  by (simp_all add: example_node_def)

lemma int_of_int64_one [simp]: "int_of_int64 1 = 1"
  by (simp add: int_of_int64_def)

text \<open>The node a conversion returns, by the value of the helper's group count.\<close>

lemma quant_conv_result:
  assumes "quant_conv node = Inr ns"
  shows "\<exists>c. ns = [c] \<and>
    ((1 < int_of_int64 (get_group node) \<and> \<not> has_bias node \<and>
        (\<exists>dgs fgs v. c = Concat (map (group_call (ng_inputs node ! 0) (ng_inputs node ! 3)
             (get_strides node) (get_dilations node) (fst (get_pads node)) (snd (get_pads node))
             (replicate (length (get_kernel_shape node)) 1) (op_scale_of node) dgs fgs v)
             [0..<nat (int_of_int64 (get_group node))]) 1)) \<or>
     (\<not> 1 < int_of_int64 (get_group node) \<and> \<not> has_bias node \<and> c =
        QuantizedLinearConvolution (Leaf (ng_inputs node ! 0)) (Leaf (ng_inputs node ! 3))
          (get_strides node) (get_dilations node) (fst (get_pads node)) (snd (get_pads node))
          (replicate (length (get_kernel_shape node)) 1)
          (ng_inputs node ! 1) (ng_inputs node ! 4) (ng_inputs node ! 6)) \<or>
     (\<not> 1 < int_of_int64 (get_group node) \<and> has_bias node \<and> c =
        QuantizedLinearConvolutionBias (Leaf (ng_inputs node ! 0)) (Leaf (ng_inputs node ! 3))
          (ng_inputs node ! 8)
          (get_strides node) (get_dilations node) (fst (get_pads node)) (snd (get_pads node))
          (replicate (length (get_kernel_shape node)) 1)
          (ng_inputs node ! 1) (ng_inputs node ! 4) (ng_inputs node ! 6)) \<or>
     (get_group node = 1 \<and> \<not> has_bias node \<and> c = fast_path_call node))"
proof -
  note cases = quant_conv_Inr [OF assms]
  consider (bias) c where "has_bias node" "helper_call node (Some (ng_inputs node ! 8)) = Inr c"
      "ns = [c]"
    | (fast) "\<not> has_bias node" "get_group node = 1" "ns = [fast_path_call node]"
    | (plain) c where "\<not> has_bias node" "helper_call node None = Inr c" "ns = [c]"
    using cases by blast
  then show ?thesis
  proof cases
    case bias
    from make_ng_quant_conv_Inr [OF bias(2) [unfolded helper_call_def]] bias(1,3)
    show ?thesis by (auto simp: op_scale_of_def)
  next
    case fast
    then show ?thesis by simp
  next
    case plain
    from make_ng_quant_conv_Inr [OF plain(2) [unfolded helper_call_def]] plain(1,3)
    show ?thesis by (auto simp: op_scale_of_def)
  qed
qed

lemma quant_conv_calls:
  assumes "quant_conv node = Inr ns" "c \<in> set (concat (map primitive_calls ns))"
  shows "(\<exists>dgs fgs v i. c = group_call (ng_inputs node ! 0) (ng_inputs node ! 3)
             (get_strides node) (get_dilations node) (fst (get_pads node)) (snd (get_pads node))
             (replicate (length (get_kernel_shape node)) 1) (op_scale_of node) dgs fgs v i) \<or>
     c = QuantizedLinearConvolution (Leaf (ng_inputs node ! 0)) (Leaf (ng_inputs node ! 3))
          (get_strides node) (get_dilations node) (fst (get_pads node)) (snd (get_pads node))
          (replicate (length (get_kernel_shape node)) 1)
          (ng_inputs node ! 1) (ng_inputs node ! 4) (ng_inputs node ! 6) \<or>
     c = QuantizedLinearConvolutionBias (Leaf (ng_inputs node ! 0)) (Leaf (ng_inputs node ! 3))
          (ng_inputs node ! 8)
          (get_strides node) (get_dilations node) (fst (get_pads node)) (snd (get_pads node))
          (replicate (length (get_kernel_shape node)) 1)
          (ng_inputs node ! 1) (ng_inputs node ! 4) (ng_inputs node ! 6) \<or>
     c = fast_path_call node"
  using quant_conv_result [OF assms(1)] assms(2)
  by (elim exE conjE disjE)
     (auto simp: concat_map_singletons fast_path_call_def simp del: upt.simps)

lemma example_groups_run:
  "quant_conv (example_node 8 [8, 4, 3, 3] i8 (Some 2) []) =
     Inr [Concat [example_call 0, example_call 1] 1]"
  by code_simp

lemma example_helper_run:
  "make_ng_quant_conv (TensorRef 0 [1, 8, 5, 5] u8) (TensorRef 3 [8, 4, 3, 3] i8)
     [1, 1] [1, 1] [0, 0] [0, 0] [1, 1] 2
     \<lparr>data_scale = TensorRef 1 [] f32, filter_scale = TensorRef 4 [] f32,
      output_scale = TensorRef 6 [] f32\<rparr> None =
     Inr (Concat [example_call 0, example_call 1] 1)"
  by code_simp

lemma group_zero_undefined:
  assumes "inputs_ok node" "get_group node = 0"
  shows "quant_conv node = Inl Undefined_Behaviour"
proof -
  let ?inputs = "ng_inputs node"
  from assms(1) have len: "8 \<le> length ?inputs"
    and d: "get_shape (?inputs ! 0) = Inr (shape (?inputs ! 0))" "1 < length (shape (?inputs ! 0))"
    and f: "get_shape (?inputs ! 3) = Inr (shape (?inputs ! 3))" "0 < length (shape (?inputs ! 3))"
    by (auto simp: inputs_ok_def get_shape_not_null)
  have ats: "at ?inputs 0 = Inr (?inputs ! 0)" "at ?inputs (Suc 0) = Inr (?inputs ! 1)"
    "at ?inputs 3 = Inr (?inputs ! 3)" "at ?inputs 4 = Inr (?inputs ! 4)"
    "at ?inputs 6 = Inr (?inputs ! 6)"
    using len by (auto simp: at_def)
  have sh: "get_shape_at (?inputs ! 0) (Suc 0) = Inr (shape (?inputs ! 0) ! 1)"
    "get_shape_at (?inputs ! 3) 0 = Inr (shape (?inputs ! 3) ! 0)"
    using d f by (simp_all add: get_shape_at_def at_def)
  show ?thesis
    using ats sh assms(2)
    by (simp add: quant_conv_def Let_def divisible_by_group_def group_in_bounds_def)
qed

text \<open>A message without a digit names no value.\<close>

lemma decimal_digits: "c \<in> set (decimal n) \<Longrightarrow> is_digit c"
proof (induction n rule: decimal.induct)
  case (1 n)
  show ?case
  proof (cases "n < 10")
    case True
    with "1.prems" show ?thesis
      by (subst (asm) decimal.simps) (simp add: is_digit_def)
  next
    case False
    have "n mod 10 < 10" by simp
    then have "is_digit (char_of (48 + n mod 10))"
      by (simp add: is_digit_def)
    with False "1.prems" "1.IH" show ?thesis
      by (subst (asm) decimal.simps) auto
  qed
qed

lemma decimal_nonempty: "decimal n \<noteq> []"
  by (subst decimal.simps) simp

lemma show_int_has_digit: "\<exists>c \<in> set (show_int v). is_digit c"
proof -
  have "\<exists>c \<in> set (decimal n). is_digit c" for n
    using decimal_nonempty [of n] decimal_digits [of _ n]
    by (cases "decimal n") auto
  then show ?thesis by (auto simp: show_int_def)
qed

lemma contains_subset: "contains pat str \<Longrightarrow> set pat \<subseteq> set str"
proof (induction str)
  case Nil
  then show ?case by simp
next
  case (Cons c cs)
  from Cons.prems have "take (length pat) (c # cs) = pat \<or> contains pat cs" by simp
  then show ?case
  proof
    assume "take (length pat) (c # cs) = pat"
    then have "set pat = set (take (length pat) (c # cs))" by simp
    then show ?thesis using set_take_subset by fast
  next
    assume "contains pat cs"
    with Cons.IH show ?thesis by auto
  qed
qed

lemma names_needs_digit: "names e v \<Longrightarrow> \<exists>c \<in> set (what e). is_digit c"
  using show_int_has_digit [of v] contains_subset [of "show_int v" "what e"]
  by (auto simp: names_def)

lemma data_message_no_digit:
  "\<forall>c \<in> set ''provided group attribute value must be a multiple of data channels count.''.
     \<not> is_digit c"
  by (simp add: is_digit_def)

lemma filter_message_no_digit:
  "\<forall>c \<in> set ''provided group attribute value must be a multiple of filter channels count.''.
     \<not> is_digit c"
  by (simp add: is_digit_def)

text \<open>The three checks of the entry point, for an operator with well-formed inputs.\<close>

lemma quant_conv_out_of_bounds:
  assumes "inputs_ok node"
    "get_group node < 0 \<or> int (data_channels node) < get_group node \<or>
     int (filter_output_channels node) < get_group node"
  shows "quant_conv node =
    Inl (InvalidArgument [Text ''incorrect value of 'group' attribute: '', Value (get_group node)])"
proof -
  let ?inputs = "ng_inputs node"
  from assms(1) have len: "8 \<le> length ?inputs"
    and d: "get_shape (?inputs ! 0) = Inr (shape (?inputs ! 0))" "1 < length (shape (?inputs ! 0))"
    and f: "get_shape (?inputs ! 3) = Inr (shape (?inputs ! 3))" "0 < length (shape (?inputs ! 3))"
    by (auto simp: inputs_ok_def get_shape_not_null)
  have ats: "at ?inputs 0 = Inr (?inputs ! 0)" "at ?inputs (Suc 0) = Inr (?inputs ! 1)"
    "at ?inputs 3 = Inr (?inputs ! 3)" "at ?inputs 4 = Inr (?inputs ! 4)"
    "at ?inputs 6 = Inr (?inputs ! 6)"
    using len by (auto simp: at_def)
  have sh: "get_shape_at (?inputs ! 0) (Suc 0) = Inr (shape (?inputs ! 0) ! 1)"
    "get_shape_at (?inputs ! 3) 0 = Inr (shape (?inputs ! 3) ! 0)"
    using d f by (simp_all add: get_shape_at_def at_def)
  have "group_in_bounds (get_group node) (?inputs ! 0) (?inputs ! 3) = Inr False"
    using assms(2) sh
    by (auto simp: group_in_bounds_def data_channels_def filter_output_channels_def)
  then show ?thesis
    using ats by (simp add: quant_conv_def Let_def)
qed

lemma quant_conv_not_divisible:
  assumes "inputs_ok node" "1 \<le> get_group node"
    "get_group node \<le> int (data_channels node)"
    "get_group node \<le> int (filter_output_channels node)"
    "data_channels node mod nat (get_group node) \<noteq> 0 \<or>
     filter_output_channels node mod nat (get_group node) \<noteq> 0"
  shows "quant_conv node =
    Inl (InvalidArgument
      (if data_channels node mod nat (get_group node) \<noteq> 0
       then [Text ''provided group attribute value must be a multiple of data channels count.'']
       else [Text ''provided group attribute value must be a multiple of filter channels count.'']))"
proof -
  let ?inputs = "ng_inputs node"
  from assms(1) have len: "8 \<le> length ?inputs"
    and d: "get_shape (?inputs ! 0) = Inr (shape (?inputs ! 0))" "1 < length (shape (?inputs ! 0))"
    and f: "get_shape (?inputs ! 3) = Inr (shape (?inputs ! 3))" "0 < length (shape (?inputs ! 3))"
    by (auto simp: inputs_ok_def get_shape_not_null)
  have ats: "at ?inputs 0 = Inr (?inputs ! 0)" "at ?inputs (Suc 0) = Inr (?inputs ! 1)"
    "at ?inputs 3 = Inr (?inputs ! 3)" "at ?inputs 4 = Inr (?inputs ! 4)"
    "at ?inputs 6 = Inr (?inputs ! 6)"
    using len by (auto simp: at_def)
  have sh: "get_shape_at (?inputs ! 0) (Suc 0) = Inr (shape (?inputs ! 0) ! 1)"
    "get_shape_at (?inputs ! 3) 0 = Inr (shape (?inputs ! 3) ! 0)"
    using d f by (simp_all add: get_shape_at_def at_def)
  have b: "group_in_bounds (get_group node) (?inputs ! 0) (?inputs ! 3) = Inr True"
    using assms(2,3,4) sh
    by (simp add: group_in_bounds_def data_channels_def filter_output_channels_def)
  have g: "get_group node \<noteq> 0" using assms(2) by simp
  show ?thesis
    using ats sh b g assms(5)
    by (auto simp: quant_conv_def Let_def divisible_by_group_def data_channels_def
        filter_output_channels_def)
qed

lemma int_of_int64_positive:
  "1 \<le> g \<Longrightarrow> g \<le> INT_MAX \<Longrightarrow> int_of_int64 g = g"
  by (simp add: int_of_int64_def INT_MAX_def)

lemma helper_call_bias_groups:
  assumes "inputs_ok node" "1 < get_group node" "get_group node \<le> INT_MAX"
  shows "helper_call node (Some b) =
    Inl (NotSupported ''Groups != 1 not supported for Quantized Convolution with bias.'')"
proof -
  from assms(1) have
    d: "get_shape (ng_inputs node ! 0) = Inr (shape (ng_inputs node ! 0))"
      "1 < length (shape (ng_inputs node ! 0))"
    and f: "get_shape (ng_inputs node ! 3) = Inr (shape (ng_inputs node ! 3))"
      "0 < length (shape (ng_inputs node ! 3))"
    by (auto simp: inputs_ok_def get_shape_not_null)
  have g: "1 < int_of_int64 (get_group node)"
    using assms(2,3) by (simp add: int_of_int64_positive)
  show ?thesis
    unfolding helper_call_def by (rule make_ng_quant_conv_bias_groups [OF g d f])
qed

lemma helper_call_groups:
  assumes "inputs_ok node" "1 < get_group node" "get_group node \<le> INT_MAX"
  shows "helper_call node None =
    Inr (Concat (map (group_call (ng_inputs node ! 0) (ng_inputs node ! 3)
             (get_strides node) (get_dilations node) (fst (get_pads node)) (snd (get_pads node))
             (replicate (length (get_kernel_shape node)) 1) (op_scale_of node)
             (data_channels node div nat (get_group node))
             (filter_output_channels node div nat (get_group node))
             (initial_vars (shape (ng_inputs node ! 0)) (shape (ng_inputs node ! 3))))
           [0..<nat (get_group node)]) 1)"
proof -
  from assms(1) have
    d: "get_shape (ng_inputs node ! 0) = Inr (shape (ng_inputs node ! 0))"
      "1 < length (shape (ng_inputs node ! 0))"
    and f: "get_shape (ng_inputs node ! 3) = Inr (shape (ng_inputs node ! 3))"
      "0 < length (shape (ng_inputs node ! 3))"
    by (auto simp: inputs_ok_def get_shape_not_null)
  have g: "int_of_int64 (get_group node) = get_group node"
    using assms(2,3) by (simp add: int_of_int64_positive)
  with assms(2) have g1: "1 < int_of_int64 (get_group node)" by simp
  show ?thesis
    unfolding helper_call_def data_channels_def filter_output_channels_def
    using make_ng_quant_conv_groups [OF g1 d f] g by simp
qed

lemma helper_call_single:
  assumes "get_group node = 1"
  shows "helper_call node None =
      Inr (QuantizedLinearConvolution (Leaf (ng_inputs node ! 0)) (Leaf (ng_inputs node ! 3))
          (get_strides node) (get_dilations node) (fst (get_pads node)) (snd (get_pads node))
          (replicate (length (get_kernel_shape node)) 1)
          (ng_inputs node ! 1) (ng_inputs node ! 4) (ng_inputs node ! 6))"
    and "helper_call node (Some b) =
      Inr (QuantizedLinearConvolutionBias (Leaf (ng_inputs node ! 0)) (Leaf (ng_inputs node ! 3)) b
          (get_strides node) (get_dilations node) (fst (get_pads node)) (snd (get_pads node))
          (replicate (length (get_kernel_shape node)) 1)
          (ng_inputs node ! 1) (ng_inputs node ! 4) (ng_inputs node ! 6))"
  using assms
  by (simp_all add: helper_call_def make_ng_quant_conv_single op_scale_of_def)

text \<open>Consecutive ranges of one size: disjoint, and together the whole extent.\<close>

lemma spec_range_eq:
  "k dvd n \<Longrightarrow> spec_range n k i = {i * (n div k) ..< (i + 1) * (n div k)}"
  by (simp only: spec_range_def div_mult_swap)

lemma ranges_disjoint:
  fixes s :: nat
  assumes "i \<noteq> j"
  shows "{i * s ..< (i + 1) * s} \<inter> {j * s ..< (j + 1) * s} = {}"
proof -
  have le: "(a + 1) * s \<le> b * s" if "a < b" for a b :: nat
    using that by (intro mult_le_mono1) simp
  from assms consider "i < j" | "j < i" by linarith
  then show ?thesis
  proof cases
    case 1
    from le [OF 1] show ?thesis by auto
  next
    case 2
    from le [OF 2] show ?thesis by auto
  qed
qed

lemma ranges_cover:
  fixes s :: nat
  shows "(\<Union>i<k. {i * s ..< (i + 1) * s}) = {..<k * s}"
proof (induction k)
  case 0
  show ?case by simp
next
  case (Suc k)
  have "(\<Union>i<Suc k. {i * s ..< (i + 1) * s}) = {..<k * s} \<union> {k * s ..< (k + 1) * s}"
    using Suc.IH by (simp add: lessThan_Suc Un_commute)
  also have "\<dots> = {..<Suc k * s}" by auto
  finally show ?case .
qed

lemma ranges_sizes:
  fixes s :: nat
  shows "(\<Sum>i<k. card {i * s ..< (i + 1) * s}) = k * s"
  by simp

lemma group_call_initial:
  assumes "1 < length ds" "0 < length fs"
  shows "group_call data filters st fd pb pa dd sc dgs fgs (initial_vars ds fs) i =
    QuantizedLinearConvolution
      (Slice (Leaf data) ((replicate (length ds) 0)[1 := i * dgs]) (ds[1 := (i + 1) * dgs]))
      (Slice (Leaf filters) ((replicate (length fs) 0)[0 := i * fgs]) (fs[0 := (i + 1) * fgs]))
      st fd pb pa dd (data_scale sc) (filter_scale sc) (output_scale sc)"
  by (simp add: group_call_def initial_vars_def)

lemma group_call_channels:
  assumes "0 < length fs"
  shows "output_channels (group_call data filters st fd pb pa dd sc dgs fgs (initial_vars ds fs) i)
    = fgs"
  using assms by (simp add: group_call_def initial_vars_def filter_extent_def)

lemma sum_list_const_upt: "sum_list (map (\<lambda>i. c) [0..<k]) = k * (c :: nat)"
  by (induction k) simp_all

text \<open>The two outcomes of the entry point for a group count above 1.\<close>

lemma quant_conv_bias_groups:
  assumes "inputs_ok node" "group_invariants node" "has_bias node"
    "1 < get_group node" "get_group node \<le> INT_MAX"
  shows "quant_conv node =
    Inl (NotSupported ''Groups != 1 not supported for Quantized Convolution with bias.'')"
  using quant_conv_validated [OF assms(1,2)] assms(3)
    helper_call_bias_groups [OF assms(1,4,5)]
  by simp

lemma quant_conv_groups:
  assumes "inputs_ok node" "group_invariants node" "\<not> has_bias node"
    "1 < get_group node" "get_group node \<le> INT_MAX"
  shows "quant_conv node =
    Inr [Concat (map (group_call (ng_inputs node ! 0) (ng_inputs node ! 3)
             (get_strides node) (get_dilations node) (fst (get_pads node)) (snd (get_pads node))
             (replicate (length (get_kernel_shape node)) 1) (op_scale_of node)
             (data_channels node div nat (get_group node))
             (filter_output_channels node div nat (get_group node))
             (initial_vars (shape (ng_inputs node ! 0)) (shape (ng_inputs node ! 3))))
           [0..<nat (get_group node)]) 1]"
  using quant_conv_validated [OF assms(1,2)] assms(3,4)
    helper_call_groups [OF assms(1,4,5)]
  by simp

text \<open>
  The decomposition by the helper, for its own group count \<open>k\<close> above 1 that divides both
  channel counts, without a bias: the concatenation along axis 1 of \<open>k\<close> calls, the call
  \<open>i\<close> on the channels from \<open>i * C / k\<close> up to \<open>(i + 1) * C / k\<close> of the data and the output
  channels from \<open>i * F / k\<close> up to \<open>(i + 1) * F / k\<close> of the filters. The ranges are disjoint,
  cover the axis and add up to the channel count, and the concatenation has as many
  channels as the filters have output channels.
\<close>

lemma helper_slices_partition:
  assumes "1 < groups" "k = nat groups"
    and "get_shape data = Inr ds" "1 < length ds" "C = ds ! 1"
    and "get_shape filters = Inr fs" "0 < length fs" "F = fs ! 0"
    and "C mod k = 0" "F mod k = 0"
  shows "\<exists>calls.
    make_ng_quant_conv data filters st fd pb pa dd groups sc None = Inr (Concat calls 1) \<and>
    length calls = k \<and>
    (\<forall>i<k. calls ! i =
       QuantizedLinearConvolution
         (Slice (Leaf data) ((replicate (length ds) 0)[1 := i * C div k])
            (ds[1 := (i + 1) * C div k]))
         (Slice (Leaf filters) ((replicate (length fs) 0)[0 := i * F div k])
            (fs[0 := (i + 1) * F div k]))
         st fd pb pa dd (data_scale sc) (filter_scale sc) (output_scale sc)) \<and>
    (\<forall>i<k. \<forall>j<k. i \<noteq> j \<longrightarrow>
       spec_range C k i \<inter> spec_range C k j = {} \<and> spec_range F k i \<inter> spec_range F k j = {}) \<and>
    (\<Union>i<k. spec_range C k i) = {..<C} \<and>
    (\<Union>i<k. spec_range F k i) = {..<F} \<and>
    (\<Sum>i<k. card (spec_range C k i)) = C \<and>
    (\<Sum>i<k. card (spec_range F k i)) = F \<and>
    output_channels (Concat calls 1) = F"
proof -
  let ?call = "group_call data filters st fd pb pa dd sc (C div k) (F div k) (initial_vars ds fs)"
  let ?calls = "map ?call [0..<k]"
  have dC: "k dvd C" and dF: "k dvd F"
    using assms(9,10) by (simp_all add: dvd_eq_mod_eq_0)
  have C: "k * (C div k) = C" and F: "k * (F div k) = F"
    using dC dF by simp_all
  have run: "make_ng_quant_conv data filters st fd pb pa dd groups sc None = Inr (Concat ?calls 1)"
    using make_ng_quant_conv_groups [OF assms(1,3,4,6,7), of st fd pb pa dd sc] assms(2,5,8)
    by simp
  have len: "length ?calls = k" by simp
  have nth: "?calls ! i =
       QuantizedLinearConvolution
         (Slice (Leaf data) ((replicate (length ds) 0)[1 := i * C div k])
            (ds[1 := (i + 1) * C div k]))
         (Slice (Leaf filters) ((replicate (length fs) 0)[0 := i * F div k])
            (fs[0 := (i + 1) * F div k]))
         st fd pb pa dd (data_scale sc) (filter_scale sc) (output_scale sc)" if "i < k" for i
  proof -
    have "?calls ! i = ?call i" using that by simp
    also have "\<dots> = QuantizedLinearConvolution
         (Slice (Leaf data) ((replicate (length ds) 0)[1 := i * (C div k)])
            (ds[1 := (i + 1) * (C div k)]))
         (Slice (Leaf filters) ((replicate (length fs) 0)[0 := i * (F div k)])
            (fs[0 := (i + 1) * (F div k)]))
         st fd pb pa dd (data_scale sc) (filter_scale sc) (output_scale sc)"
      by (rule group_call_initial [OF assms(4,7)])
    finally show ?thesis
      by (simp only: div_mult_swap [OF dC] div_mult_swap [OF dF])
  qed
  have disj: "spec_range C k i \<inter> spec_range C k j = {} \<and>
      spec_range F k i \<inter> spec_range F k j = {}" if "i \<noteq> j" for i j
    using ranges_disjoint [OF that] by (simp only: spec_range_eq [OF dC] spec_range_eq [OF dF])
  have coverC: "(\<Union>i<k. spec_range C k i) = {..<C}"
    using ranges_cover [of "C div k" k] C by (simp only: spec_range_eq [OF dC])
  have coverF: "(\<Union>i<k. spec_range F k i) = {..<F}"
    using ranges_cover [of "F div k" k] F by (simp only: spec_range_eq [OF dF])
  have sumC: "(\<Sum>i<k. card (spec_range C k i)) = C"
    using ranges_sizes [of "C div k" k] C by (simp only: spec_range_eq [OF dC])
  have sumF: "(\<Sum>i<k. card (spec_range F k i)) = F"
    using ranges_sizes [of "F div k" k] F by (simp only: spec_range_eq [OF dF])
  have "output_channels (Concat ?calls 1) = sum_list (map (\<lambda>i. F div k) [0..<k])"
    using assms(7) by (simp add: group_call_channels comp_def del: upt.simps)
  also have "\<dots> = F" using F by (simp only: sum_list_const_upt)
  finally have out: "output_channels (Concat ?calls 1) = F" .
  show ?thesis
  proof (rule exI [of _ ?calls], intro conjI allI impI)
    show "make_ng_quant_conv data filters st fd pb pa dd groups sc None = Inr (Concat ?calls 1)"
      by (rule run)
    show "length ?calls = k" by (rule len)
    show "(\<Union>i<k. spec_range C k i) = {..<C}" by (rule coverC)
    show "(\<Union>i<k. spec_range F k i) = {..<F}" by (rule coverF)
    show "(\<Sum>i<k. card (spec_range C k i)) = C" by (rule sumC)
    show "(\<Sum>i<k. card (spec_range F k i)) = F" by (rule sumF)
    show "output_channels (Concat ?calls 1) = F" by (rule out)
  next
    fix i assume "i < k"
    then show "?calls ! i =
       QuantizedLinearConvolution
         (Slice (Leaf data) ((replicate (length ds) 0)[1 := i * C div k])
            (ds[1 := (i + 1) * C div k]))
         (Slice (Leaf filters) ((replicate (length fs) 0)[0 := i * F div k])
            (fs[0 := (i + 1) * F div k]))
         st fd pb pa dd (data_scale sc) (filter_scale sc) (output_scale sc)"
      by (rule nth)
  next
    fix i j :: nat assume "i \<noteq> j"
    then show "spec_range C k i \<inter> spec_range C k j = {}"
      using disj by blast
  next
    fix i j :: nat assume "i \<noteq> j"
    then show "spec_range F k i \<inter> spec_range F k j = {}"
      using disj by blast
  qed
qed

text \<open>
  The entry point with a group count that the call to the helper changes: the helper
  branches on the narrowed count.
\<close>

lemma example_node_fields:
  "ng_inputs (example_node c fs t g extra) =
     [TensorRef 0 [1, c, 5, 5] u8, TensorRef 1 [] f32, TensorRef 2 [] u8,
      TensorRef 3 fs t, TensorRef 4 [] f32, TensorRef 5 [] u8,
      TensorRef 6 [] f32, TensorRef 7 [] u8] @ extra"
  "get_group (example_node c fs t g extra) = (case g of None \<Rightarrow> 1 | Some v \<Rightarrow> v)"
  "get_strides (example_node c fs t g extra) = [1, 1]"
  "get_dilations (example_node c fs t g extra) = [1, 1]"
  "get_pads (example_node c fs t g extra) = ([0, 0], [0, 0])"
  "get_kernel_shape (example_node c fs t g extra) = [3, 3]"
  by (simp_all add: example_node_def get_group_def get_strides_def get_dilations_def
      get_pads_def get_kernel_shape_def)

lemma quant_conv_bias_single:
  assumes "inputs_ok node" "group_invariants node" "has_bias node"
    "\<not> 1 < int_of_int64 (get_group node)"
  shows "quant_conv node =
    Inr [QuantizedLinearConvolutionBias (Leaf (ng_inputs node ! 0)) (Leaf (ng_inputs node ! 3))
           (ng_inputs node ! 8) (get_strides node) (get_dilations node)
           (fst (get_pads node)) (snd (get_pads node))
           (replicate (length (get_kernel_shape node)) 1)
           (ng_inputs node ! 1) (ng_inputs node ! 4) (ng_inputs node ! 6)]"
  using quant_conv_validated [OF assms(1,2)] assms(3)
    make_ng_quant_conv_single [OF assms(4)]
  by (simp add: helper_call_def op_scale_of_def)

lemma quant_conv_narrowed_groups:
  assumes "inputs_ok node" "group_invariants node" "\<not> has_bias node"
    "get_group node \<noteq> 1" "1 < int_of_int64 (get_group node)"
  shows "quant_conv node =
    Inr [Concat (map (group_call (ng_inputs node ! 0) (ng_inputs node ! 3)
             (get_strides node) (get_dilations node) (fst (get_pads node)) (snd (get_pads node))
             (replicate (length (get_kernel_shape node)) 1) (op_scale_of node)
             (data_channels node div nat (int_of_int64 (get_group node)))
             (filter_output_channels node div nat (int_of_int64 (get_group node)))
             (initial_vars (shape (ng_inputs node ! 0)) (shape (ng_inputs node ! 3))))
           [0..<nat (int_of_int64 (get_group node))]) 1]"
proof -
  from assms(1) have
    d: "get_shape (ng_inputs node ! 0) = Inr (shape (ng_inputs node ! 0))"
      "1 < length (shape (ng_inputs node ! 0))"
    and f: "get_shape (ng_inputs node ! 3) = Inr (shape (ng_inputs node ! 3))"
      "0 < length (shape (ng_inputs node ! 3))"
    by (auto simp: inputs_ok_def get_shape_not_null)
  have "helper_call node None =
    Inr (Concat (map (group_call (ng_inputs node ! 0) (ng_inputs node ! 3)
             (get_strides node) (get_dilations node) (fst (get_pads node)) (snd (get_pads node))
             (replicate (length (get_kernel_shape node)) 1) (op_scale_of node)
             (data_channels node div nat (int_of_int64 (get_group node)))
             (filter_output_channels node div nat (int_of_int64 (get_group node)))
             (initial_vars (shape (ng_inputs node ! 0)) (shape (ng_inputs node ! 3))))
           [0..<nat (int_of_int64 (get_group node))]) 1)"
    unfolding helper_call_def data_channels_def filter_output_channels_def
    by (rule make_ng_quant_conv_groups [OF assms(5) d f])
  with quant_conv_validated [OF assms(1,2)] assms(3,4) show ?thesis by simp
qed

section \<open>The claims\<close>

text \<open>
  Against C1 as stated: a group count of 1, filters of the fast path's element type, and
  a bias. The tree of the specification gives the fast path; the conversion makes the
  bias-fused call.
\<close>

theorem bias_before_fast_path:
  "get_group (example_node 8 [8, 8, 3, 3] u8 None [example_bias]) = 1 \<and>
   filter_is_u8 (example_node 8 [8, 8, 3, 3] u8 None [example_bias]) \<and>
   spec_decision_tree 1 True True = Fast_Path \<and>
   leaf_executed (quant_conv (example_node 8 [8, 8, 3, 3] u8 None [example_bias])) =
     Some Bias_Fused"
  by code_simp

text \<open>
  C1, amended. For every operator that passes the validation (with a group count that
  fits the helper's \<^verbatim>\<open>int\<close>), exactly one of the four leaves runs, and it is the one
  the decision tree gives when the bias is tested before the fast path. With a group
  count above 1 it is the group assembler: the unsupported-feature error with a bias, the
  concatenation of the per-group calls without. Else, with a bias, it is the single
  bias-fused call. Else, with filters of the element type \<open>u8\<close>, it is the fast path: a
  single call that is given the three scales and, after each, the zero point of the same
  tensor (the inputs 2, 5 and 7). Else it is the plain call, with the scales alone. So
  the fast path runs exactly when the group count is 1, the filters are \<open>u8\<close> and there is
  no bias.
\<close>

theorem dispatch_bias_first:
  assumes "inputs_ok node" "group_invariants node" "get_group node \<le> INT_MAX"
  shows "quant_conv node =
      (if 1 < get_group node then
         (if has_bias node then
            Inl (NotSupported ''Groups != 1 not supported for Quantized Convolution with bias.'')
          else
            Inr [Concat (map (group_call (ng_inputs node ! 0) (ng_inputs node ! 3)
                   (get_strides node) (get_dilations node)
                   (fst (get_pads node)) (snd (get_pads node))
                   (replicate (length (get_kernel_shape node)) 1) (op_scale_of node)
                   (data_channels node div nat (get_group node))
                   (filter_output_channels node div nat (get_group node))
                   (initial_vars (shape (ng_inputs node ! 0)) (shape (ng_inputs node ! 3))))
                 [0..<nat (get_group node)]) 1])
       else if has_bias node then
         Inr [QuantizedLinearConvolutionBias
                (Leaf (ng_inputs node ! 0)) (Leaf (ng_inputs node ! 3)) (ng_inputs node ! 8)
                (get_strides node) (get_dilations node)
                (fst (get_pads node)) (snd (get_pads node))
                (replicate (length (get_kernel_shape node)) 1)
                (ng_inputs node ! 1) (ng_inputs node ! 4) (ng_inputs node ! 6)]
       else if filter_is_u8 node then
         Inr [QuantizedLinearConvolution_zp
                (Leaf (ng_inputs node ! 0)) (Leaf (ng_inputs node ! 3))
                (get_strides node) (get_dilations node)
                (fst (get_pads node)) (snd (get_pads node))
                (replicate (length (get_kernel_shape node)) 1)
                (ng_inputs node ! 1) (ng_inputs node ! 2)
                (ng_inputs node ! 4) (ng_inputs node ! 5)
                (ng_inputs node ! 6) (ng_inputs node ! 7)]
       else
         Inr [QuantizedLinearConvolution
                (Leaf (ng_inputs node ! 0)) (Leaf (ng_inputs node ! 3))
                (get_strides node) (get_dilations node)
                (fst (get_pads node)) (snd (get_pads node))
                (replicate (length (get_kernel_shape node)) 1)
                (ng_inputs node ! 1) (ng_inputs node ! 4) (ng_inputs node ! 6)]) \<and>
    leaf_executed (quant_conv node) =
      Some (bias_first_tree (get_group node) (has_bias node) (filter_is_u8 node)) \<and>
    (leaf_executed (quant_conv node) = Some Fast_Path) =
      (get_group node = 1 \<and> filter_is_u8 node \<and> \<not> has_bias node)"
    (is "quant_conv node = ?outcome \<and> ?leaf \<and> ?fast")
proof -
  from assms(2) have g1: "1 \<le> get_group node" by (simp add: group_invariants_def)
  note run = quant_conv_validated [OF assms(1,2)]
  have outcome: "quant_conv node = ?outcome"
  proof (cases "1 < get_group node")
    case True
    show ?thesis
    proof (cases "has_bias node")
      case True
      with quant_conv_bias_groups [OF assms(1,2) True \<open>1 < get_group node\<close> assms(3)]
        \<open>1 < get_group node\<close>
      show ?thesis by simp
    next
      case False
      with quant_conv_groups [OF assms(1,2) False \<open>1 < get_group node\<close> assms(3)]
        \<open>1 < get_group node\<close>
      show ?thesis by simp
    qed
  next
    case False
    with g1 have one: "get_group node = 1" by simp
    with run helper_call_single [OF one] show ?thesis
      by (simp add: fast_path_call_def)
  qed
  have leaf: ?leaf
  proof (cases "1 < get_group node")
    case True
    then show ?thesis
      unfolding outcome
      by (simp add: leaf_executed_def leaf_of_node_def bias_first_tree_def)
  next
    case False
    with g1 have one: "get_group node = 1" by simp
    then show ?thesis
      unfolding outcome
      by (simp add: leaf_executed_def leaf_of_node_def bias_first_tree_def)
  qed
  from leaf have ?fast
    by (auto simp: bias_first_tree_def split: if_splits)
  with outcome leaf show ?thesis by blast
qed

theorem dispatch_bias_first_witness:
  "inputs_ok (example_node 8 [8, 8, 3, 3] u8 None []) \<and>
   group_invariants (example_node 8 [8, 8, 3, 3] u8 None []) \<and>
   get_group (example_node 8 [8, 8, 3, 3] u8 None []) \<le> INT_MAX \<and>
   \<not> has_bias (example_node 8 [8, 8, 3, 3] u8 None []) \<and>
   quant_conv (example_node 8 [8, 8, 3, 3] u8 None []) =
     Inr [QuantizedLinearConvolution_zp
            (Leaf (TensorRef 0 [1, 8, 5, 5] u8)) (Leaf (TensorRef 3 [8, 8, 3, 3] u8))
            [1, 1] [1, 1] [0, 0] [0, 0] [1, 1]
            (TensorRef 1 [] f32) (TensorRef 2 [] u8)
            (TensorRef 4 [] f32) (TensorRef 5 [] u8)
            (TensorRef 6 [] f32) (TensorRef 7 [] u8)] \<and>
   leaf_executed (quant_conv (example_node 8 [8, 8, 3, 3] u8 None [])) = Some Fast_Path"
proof -
  let ?n = "example_node 8 [8, 8, 3, 3] u8 None []"
  have h: "inputs_ok ?n" "group_invariants ?n" "get_group ?n \<le> INT_MAX"
    by (simp_all add: inputs_ok_def group_invariants_def get_group_def data_channels_def
        filter_output_channels_def example_node_def is_null_def INT_MAX_def)
  have v: "get_group ?n = 1" "filter_is_u8 ?n" "\<not> has_bias ?n"
    by (simp_all add: get_group_def filter_is_u8_def has_bias_def get_element_type_def
        example_node_def)
  from dispatch_bias_first [OF h] h v show ?thesis
    by (simp add: bias_first_tree_def example_node_fields leaf_executed_def leaf_of_node_def)
qed

text \<open>
  C2. Against the claim that every operator with valid shapes, a bias and a group count
  above 1 ends in the unsupported-feature error: the entry point holds the count as an
  \<^verbatim>\<open>int64_t\<close> and hands it to the helper's \<^verbatim>\<open>int\<close> parameter. With 2147483648 data
  channels, as many filters, a bias and a group count of 2147483648 the validation
  passes, the helper receives -2147483648, takes its branch for a single group, and the
  conversion returns one bias-fused call. No error is raised. (For a count that fits the
  \<^verbatim>\<open>int\<close> the error is raised: lemma \<open>quant_conv_bias_groups\<close>.)
\<close>

theorem narrowed_count_skips_not_supported:
  "get_group (example_node 2147483648 [2147483648, 1, 3, 3] i8 (Some 2147483648)
      [TensorRef 8 [2147483648] i32]) = 2147483648 \<and>
   has_bias (example_node 2147483648 [2147483648, 1, 3, 3] i8 (Some 2147483648)
      [TensorRef 8 [2147483648] i32]) \<and>
   group_invariants (example_node 2147483648 [2147483648, 1, 3, 3] i8 (Some 2147483648)
      [TensorRef 8 [2147483648] i32]) \<and>
   int_of_int64 2147483648 = - 2147483648 \<and>
   quant_conv (example_node 2147483648 [2147483648, 1, 3, 3] i8 (Some 2147483648)
      [TensorRef 8 [2147483648] i32]) =
     Inr [QuantizedLinearConvolutionBias
            (Leaf (TensorRef 0 [1, 2147483648, 5, 5] u8))
            (Leaf (TensorRef 3 [2147483648, 1, 3, 3] i8))
            (TensorRef 8 [2147483648] i32) [1, 1] [1, 1] [0, 0] [0, 0] [1, 1]
            (TensorRef 1 [] f32) (TensorRef 4 [] f32) (TensorRef 6 [] f32)]"
proof -
  let ?n = "example_node 2147483648 [2147483648, 1, 3, 3] i8 (Some 2147483648)
      [TensorRef 8 [2147483648] i32]"
  have g: "get_group ?n = 2147483648" by (simp add: example_node_fields)
  have n: "int_of_int64 2147483648 = - 2147483648" by (simp add: int_of_int64_def)
  have h: "inputs_ok ?n" "group_invariants ?n" "has_bias ?n"
    by (simp_all add: inputs_ok_def group_invariants_def has_bias_def data_channels_def
        filter_output_channels_def example_node_fields is_null_def)
  have "\<not> 1 < int_of_int64 (get_group ?n)" unfolding g n by simp
  from quant_conv_bias_single [OF h this] g n h show ?thesis
    by (simp add: example_node_fields)
qed

text \<open>
  C3. Against the claim that a group count of 0 is rejected before any remainder by it is
  computed: the entry point tests \<open>groups >= 0\<close>, so the count 0 passes the bounds check
  and reaches the remainder \<^verbatim>\<open>n_data_channels % groups\<close>, whose behaviour is undefined.
  No validation error is raised.
\<close>

theorem group_zero_reaches_remainder:
  "get_group (example_node 8 [8, 8, 3, 3] i8 (Some 0) []) = 0 \<and>
   group_in_bounds 0 (TensorRef 0 [1, 8, 5, 5] u8) (TensorRef 3 [8, 8, 3, 3] i8) = Inr True \<and>
   divisible_by_group 8 0 = Inl Undefined_Behaviour \<and>
   quant_conv (example_node 8 [8, 8, 3, 3] i8 (Some 0) []) = Inl Undefined_Behaviour"
  by code_simp

text \<open>
  C4. Against the claim that for every valid group count \<open>g\<close> above 1 without a bias the
  conversion slices both channel axes into the \<open>g\<close> ranges from \<open>i * size / g\<close> up to
  \<open>(i + 1) * size / g\<close>, which cover the axis: with 4294967299 data channels, as many
  filters and a group count of 4294967299 the validation passes, the helper receives the
  narrowed count 3 and makes three calls, on slices of 1431655766 channels each. The
  specification's range for the group 1 is the single channel 1; the slices made leave
  the last channel out, and the concatenation has 4294967298 channels, one less than the
  filters. (For its own count the helper partitions the axes: lemma
  \<open>helper_slices_partition\<close>; so does the entry point for a count that fits the
  \<^verbatim>\<open>int\<close>: lemma \<open>quant_conv_groups\<close>.)
\<close>

theorem narrowed_count_slices:
  "get_group (example_node 4294967299 [4294967299, 1, 3, 3] i8 (Some 4294967299) []) =
     4294967299 \<and>
   data_channels (example_node 4294967299 [4294967299, 1, 3, 3] i8 (Some 4294967299) []) =
     4294967299 \<and>
   filter_output_channels
     (example_node 4294967299 [4294967299, 1, 3, 3] i8 (Some 4294967299) []) = 4294967299 \<and>
   group_invariants (example_node 4294967299 [4294967299, 1, 3, 3] i8 (Some 4294967299) []) \<and>
   \<not> has_bias (example_node 4294967299 [4294967299, 1, 3, 3] i8 (Some 4294967299) []) \<and>
   int_of_int64 4294967299 = 3 \<and>
   quant_conv (example_node 4294967299 [4294967299, 1, 3, 3] i8 (Some 4294967299) []) =
     Inr [Concat [narrowed_call 0, narrowed_call 1, narrowed_call 2] 1] \<and>
   output_channels (Concat [narrowed_call 0, narrowed_call 1, narrowed_call 2] 1) =
     4294967298 \<and>
   spec_range 4294967299 4294967299 1 = {1..<2}"
proof -
  let ?n = "example_node 4294967299 [4294967299, 1, 3, 3] i8 (Some 4294967299) []"
  have g: "get_group ?n = 4294967299" by (simp add: example_node_fields)
  have n: "int_of_int64 4294967299 = 3" by (simp add: int_of_int64_def)
  have c: "data_channels ?n = 4294967299" "filter_output_channels ?n = 4294967299"
    by (simp_all add: data_channels_def filter_output_channels_def example_node_fields)
  have h: "inputs_ok ?n" "group_invariants ?n" "\<not> has_bias ?n"
    by (simp_all add: inputs_ok_def group_invariants_def has_bias_def data_channels_def
        filter_output_channels_def example_node_fields is_null_def)
  have g1: "get_group ?n \<noteq> 1" "1 < int_of_int64 (get_group ?n)"
    unfolding g n by simp_all
  have u: "[0..<nat 3] = [0, 1, 2]" by code_simp
  have q: "(4294967299 :: nat) div 3 = 1431655766" by simp
  have run: "quant_conv ?n = Inr [Concat [narrowed_call 0, narrowed_call 1, narrowed_call 2] 1]"
    unfolding quant_conv_narrowed_groups [OF h g1] g n c u q
    by (simp add: group_call_def initial_vars_def narrowed_call_def op_scale_of_def
        example_node_fields)
  have out: "output_channels (Concat [narrowed_call 0, narrowed_call 1, narrowed_call 2] 1) =
     4294967298"
    by (simp add: narrowed_call_def filter_extent_def)
  have r: "spec_range 4294967299 4294967299 1 = {1..<2}"
    by (simp add: spec_range_def)
  from g c h n run out r show ?thesis by blast
qed

text \<open>
  Against C5 as stated: eight data channels and a group count of 3. The validation error
  is raised, and its message holds neither an 8 nor a 3.
\<close>

theorem divisibility_error_names_no_value:
  "data_channels (example_node 8 [9, 8, 3, 3] i8 (Some 3) []) = 8 \<and>
   get_group (example_node 8 [9, 8, 3, 3] i8 (Some 3) []) = 3 \<and>
   quant_conv (example_node 8 [9, 8, 3, 3] i8 (Some 3) []) =
     Inl (InvalidArgument
       [Text ''provided group attribute value must be a multiple of data channels count.'']) \<and>
   \<not> names (InvalidArgument
       [Text ''provided group attribute value must be a multiple of data channels count.'']) 8 \<and>
   \<not> names (InvalidArgument
       [Text ''provided group attribute value must be a multiple of data channels count.'']) 3"
  by code_simp

text \<open>
  C5, amended. For every group count other than 0 that does not divide the data channels
  or does not divide the filter output channels, the conversion fails with a validation
  error. When the count is negative or above a channel count it is the error of the
  bounds check, whose message ends with the count. Otherwise it is the error of the first
  divisibility check that fails, data before filters, and its message is a fixed text
  that names no value: neither the channel count nor the group count.
\<close>

theorem divisibility_errors:
  assumes "inputs_ok node" "get_group node \<noteq> 0"
    "int (data_channels node) mod get_group node \<noteq> 0 \<or>
     int (filter_output_channels node) mod get_group node \<noteq> 0"
  shows "quant_conv node =
    Inl (InvalidArgument
      (if get_group node < 0 \<or> int (data_channels node) < get_group node \<or>
          int (filter_output_channels node) < get_group node
       then [Text ''incorrect value of 'group' attribute: '', Value (get_group node)]
       else if int (data_channels node) mod get_group node \<noteq> 0
       then [Text ''provided group attribute value must be a multiple of data channels count.'']
       else [Text ''provided group attribute value must be a multiple of filter channels count.''])) \<and>
    (\<forall>v. \<not> names (InvalidArgument
       [Text ''provided group attribute value must be a multiple of data channels count.'']) v) \<and>
    (\<forall>v. \<not> names (InvalidArgument
       [Text ''provided group attribute value must be a multiple of filter channels count.'']) v)"
proof -
  have no_value: "\<not> names (InvalidArgument [Text s]) v" if "\<forall>c \<in> set s. \<not> is_digit c" for s v
    using names_needs_digit [of "InvalidArgument [Text s]" v] that
    by (auto simp: what_def item_text_def)
  have first: "quant_conv node =
    Inl (InvalidArgument
      (if get_group node < 0 \<or> int (data_channels node) < get_group node \<or>
          int (filter_output_channels node) < get_group node
       then [Text ''incorrect value of 'group' attribute: '', Value (get_group node)]
       else if int (data_channels node) mod get_group node \<noteq> 0
       then [Text ''provided group attribute value must be a multiple of data channels count.'']
       else [Text ''provided group attribute value must be a multiple of filter channels count.'']))"
  proof (cases "get_group node < 0 \<or> int (data_channels node) < get_group node \<or>
          int (filter_output_channels node) < get_group node")
    case True
    with quant_conv_out_of_bounds [OF assms(1) True] show ?thesis by simp
  next
    case False
    with assms(2) have g: "1 \<le> get_group node" "get_group node \<le> int (data_channels node)"
      "get_group node \<le> int (filter_output_channels node)" by auto
    have m: "int (n mod nat (get_group node)) = int n mod get_group node" for n
      using g(1) by (simp add: zmod_int)
    have m0: "(n mod nat (get_group node) = 0) = (int n mod get_group node = 0)" for n
      using m [of n] by (metis of_nat_eq_0_iff)
    from assms(3) have nd: "data_channels node mod nat (get_group node) \<noteq> 0 \<or>
        filter_output_channels node mod nat (get_group node) \<noteq> 0"
      using m0 by blast
    from quant_conv_not_divisible [OF assms(1) g nd] False
      m0 [of "data_channels node"] show ?thesis
      by (cases "data_channels node mod nat (get_group node) = 0") simp_all
  qed
  from first no_value [OF data_message_no_digit] no_value [OF filter_message_no_digit]
  show ?thesis by blast
qed

theorem divisibility_errors_witness:
  "inputs_ok (example_node 8 [9, 8, 3, 3] i8 (Some 3) []) \<and>
   get_group (example_node 8 [9, 8, 3, 3] i8 (Some 3) []) = 3 \<and>
   int (data_channels (example_node 8 [9, 8, 3, 3] i8 (Some 3) [])) mod 3 = 2 \<and>
   quant_conv (example_node 8 [9, 8, 3, 3] i8 (Some 3) []) =
     Inl (InvalidArgument
       [Text ''provided group attribute value must be a multiple of data channels count.''])"
proof -
  let ?n = "example_node 8 [9, 8, 3, 3] i8 (Some 3) []"
  have h: "inputs_ok ?n" "get_group ?n = 3" "data_channels ?n = 8" "filter_output_channels ?n = 9"
    by (simp_all add: inputs_ok_def get_group_def data_channels_def filter_output_channels_def
        example_node_def is_null_def)
  have "get_group ?n \<noteq> 0" "int (data_channels ?n) mod get_group ?n \<noteq> 0 \<or>
     int (filter_output_channels ?n) mod get_group ?n \<noteq> 0"
    using h by simp_all
  from divisibility_errors [OF h(1) this] h show ?thesis by simp
qed

text \<open>
  C6. In the branch of the helper for a group count above 1 without a bias, the result is
  the concatenation of as many builder calls as there are groups, and each of them is
  given the scales the helper was given. At the entry point: whenever a conversion
  returns a concatenation, each of its calls is given the operator's scale inputs (the
  inputs 1, 4 and 6), unchanged.
\<close>

theorem per_group_scales:
  "(1 < groups \<and> make_ng_quant_conv data filters st fd pb pa dd groups sc None = Inr r \<longrightarrow>
      (\<exists>calls. r = Concat calls 1 \<and> length calls = nat groups \<and>
         (\<forall>c \<in> set calls. scales_of c = Some sc))) \<and>
   (quant_conv node = Inr [Concat calls' axis] \<longrightarrow>
      (\<forall>c \<in> set calls'. scales_of c = Some (op_scale_of node)))"
proof (intro conjI impI)
  assume "1 < groups \<and> make_ng_quant_conv data filters st fd pb pa dd groups sc None = Inr r"
  then have g: "1 < groups"
    and r: "make_ng_quant_conv data filters st fd pb pa dd groups sc None = Inr r" by simp_all
  from make_ng_quant_conv_Inr_groups [OF r g] obtain dgs fgs v where
    "r = Concat (map (group_call data filters st fd pb pa dd sc dgs fgs v) [0..<nat groups]) 1"
    by blast
  then show "\<exists>calls. r = Concat calls 1 \<and> length calls = nat groups \<and>
         (\<forall>c \<in> set calls. scales_of c = Some sc)"
    by (auto simp del: upt.simps)
next
  assume "quant_conv node = Inr [Concat calls' axis]"
  from quant_conv_result [OF this]
  show "\<forall>c \<in> set calls'. scales_of c = Some (op_scale_of node)"
    by (auto simp: fast_path_call_def simp del: upt.simps)
qed

theorem per_group_scales_witness:
  "make_ng_quant_conv (TensorRef 0 [1, 8, 5, 5] u8) (TensorRef 3 [8, 4, 3, 3] i8)
     [1, 1] [1, 1] [0, 0] [0, 0] [1, 1] 2
     \<lparr>data_scale = TensorRef 1 [] f32, filter_scale = TensorRef 4 [] f32,
      output_scale = TensorRef 6 [] f32\<rparr> None =
     Inr (Concat [example_call 0, example_call 1] 1) \<and>
   quant_conv (example_node 8 [8, 4, 3, 3] i8 (Some 2) []) =
     Inr [Concat [example_call 0, example_call 1] 1] \<and>
   (\<exists>calls. Concat [example_call 0, example_call 1] 1 = Concat calls 1 \<and> length calls = 2) \<and>
   scales_of (example_call 0) =
     Some \<lparr>data_scale = TensorRef 1 [] f32, filter_scale = TensorRef 4 [] f32,
           output_scale = TensorRef 6 [] f32\<rparr> \<and>
   scales_of (example_call 1) =
     Some \<lparr>data_scale = TensorRef 1 [] f32, filter_scale = TensorRef 4 [] f32,
           output_scale = TensorRef 6 [] f32\<rparr>"
proof -
  have s: "op_scale_of (example_node 8 [8, 4, 3, 3] i8 (Some 2) []) =
      \<lparr>data_scale = TensorRef 1 [] f32, filter_scale = TensorRef 4 [] f32,
       output_scale = TensorRef 6 [] f32\<rparr>"
    by (simp add: op_scale_of_def example_node_def)
  from per_group_scales [of 2 "TensorRef 0 [1, 8, 5, 5] u8" "TensorRef 3 [8, 4, 3, 3] i8"
      "[1, 1]" "[1, 1]" "[0, 0]" "[0, 0]" "[1, 1]"
      "\<lparr>data_scale = TensorRef 1 [] f32, filter_scale = TensorRef 4 [] f32,
        output_scale = TensorRef 6 [] f32\<rparr>"
      "Concat [example_call 0, example_call 1] 1"
      "example_node 8 [8, 4, 3, 3] i8 (Some 2) []"
      "[example_call 0, example_call 1]" 1]
    example_helper_run example_groups_run s
  show ?thesis by simp
qed

text \<open>
  C7. For every operator with group count 1, a bias, and filters whose element type is
  not that of the fast path, the conversion is one call of the bias-fused builder on the
  whole data and the whole filters: the result holds no slice and no concatenation.
\<close>

theorem bias_fused_single_call:
  assumes "inputs_ok node" "has_bias node" "get_group node = 1"
    "1 \<le> data_channels node" "1 \<le> filter_output_channels node" "\<not> filter_is_u8 node"
  shows "quant_conv node =
    Inr [QuantizedLinearConvolutionBias (Leaf (ng_inputs node ! 0)) (Leaf (ng_inputs node ! 3))
           (ng_inputs node ! 8) (get_strides node) (get_dilations node)
           (fst (get_pads node)) (snd (get_pads node))
           (replicate (length (get_kernel_shape node)) 1)
           (ng_inputs node ! 1) (ng_inputs node ! 4) (ng_inputs node ! 6)]"
proof -
  have inv: "group_invariants node"
    using assms(3,4,5) by (simp add: group_invariants_def)
  have "helper_call node (Some (ng_inputs node ! 8)) =
      Inr (QuantizedLinearConvolutionBias (Leaf (ng_inputs node ! 0)) (Leaf (ng_inputs node ! 3))
           (ng_inputs node ! 8) (get_strides node) (get_dilations node)
           (fst (get_pads node)) (snd (get_pads node))
           (replicate (length (get_kernel_shape node)) 1)
           (ng_inputs node ! 1) (ng_inputs node ! 4) (ng_inputs node ! 6))"
    using assms(3)
    by (simp add: helper_call_def make_ng_quant_conv_single int_of_int64_def op_scale_of_def)
  with quant_conv_validated [OF assms(1) inv] assms(2) show ?thesis by simp
qed

theorem bias_fused_single_call_witness:
  "inputs_ok (example_node 8 [8, 8, 3, 3] i8 None [example_bias]) \<and>
   has_bias (example_node 8 [8, 8, 3, 3] i8 None [example_bias]) \<and>
   get_group (example_node 8 [8, 8, 3, 3] i8 None [example_bias]) = 1 \<and>
   \<not> filter_is_u8 (example_node 8 [8, 8, 3, 3] i8 None [example_bias]) \<and>
   quant_conv (example_node 8 [8, 8, 3, 3] i8 None [example_bias]) =
     Inr [QuantizedLinearConvolutionBias
            (Leaf (TensorRef 0 [1, 8, 5, 5] u8)) (Leaf (TensorRef 3 [8, 8, 3, 3] i8))
            (TensorRef 8 [8] i32) [1, 1] [1, 1] [0, 0] [0, 0] [1, 1]
            (TensorRef 1 [] f32) (TensorRef 4 [] f32) (TensorRef 6 [] f32)]"
proof -
  let ?n = "example_node 8 [8, 8, 3, 3] i8 None [example_bias]"
  have h: "inputs_ok ?n" "has_bias ?n" "get_group ?n = 1" "1 \<le> data_channels ?n"
    "1 \<le> filter_output_channels ?n" "\<not> filter_is_u8 ?n"
    by (simp_all add: inputs_ok_def has_bias_def get_group_def data_channels_def
        filter_output_channels_def filter_is_u8_def example_node_def example_bias_def
        is_null_def get_element_type_def)
  from bias_fused_single_call [OF h] h show ?thesis
    by (simp add: example_node_def example_bias_def get_strides_def get_dilations_def
        get_pads_def get_kernel_shape_def numeral_2_eq_2)
qed

text \<open>
  C8. For every operator with nine inputs of which the ninth is the null node, the
  conversion gives what it gives for the eight other inputs alone; it never ends in the
  unsupported-feature error and never returns a bias-fused call.
\<close>

theorem null_bias_is_no_bias:
  assumes "length xs = 8" "is_null b"
  shows "quant_conv (node\<lparr>ng_inputs := xs @ [b]\<rparr>) = quant_conv (node\<lparr>ng_inputs := xs\<rparr>) \<and>
    (\<forall>m. quant_conv (node\<lparr>ng_inputs := xs @ [b]\<rparr>) \<noteq> Inl (NotSupported m)) \<and>
    (\<forall>ns c. quant_conv (node\<lparr>ng_inputs := xs @ [b]\<rparr>) = Inr ns \<longrightarrow> c \<in> set ns \<longrightarrow>
       \<not> is_bias_fused c)"
proof -
  let ?n = "node\<lparr>ng_inputs := xs @ [b]\<rparr>"
  have nb: "\<not> has_bias ?n"
    using assms by (simp add: has_bias_def nth_append)
  have "\<not> is_bias_fused c" if r: "quant_conv ?n = Inr ns" and c: "c \<in> set ns" for ns c
  proof -
    from quant_conv_Inr [OF r] nb
    have "ns = [fast_path_call ?n] \<or> (\<exists>c'. helper_call ?n None = Inr c' \<and> ns = [c'])"
      by blast
    then show ?thesis
    proof
      assume "ns = [fast_path_call ?n]"
      with c show ?thesis by (simp add: fast_path_call_def is_bias_fused_def)
    next
      assume "\<exists>c'. helper_call ?n None = Inr c' \<and> ns = [c']"
      then obtain c' where h: "helper_call ?n None = Inr c'" and ns: "ns = [c']" by blast
      from make_ng_quant_conv_Inr [OF h [unfolded helper_call_def]] c ns
      show ?thesis by (auto simp: is_bias_fused_def)
    qed
  qed
  moreover have "quant_conv ?n \<noteq> Inl (NotSupported m)" for m
    using not_supported_needs_bias [of ?n m] nb by blast
  ultimately show ?thesis
    using quant_conv_null_bias [OF assms] by blast
qed

theorem null_bias_is_no_bias_witness:
  "length (ng_inputs (example_node 8 [8, 4, 3, 3] i8 (Some 2) [])) = 8 \<and> is_null NullNode \<and>
   quant_conv (example_node 8 [8, 4, 3, 3] i8 (Some 2) [NullNode]) =
     quant_conv (example_node 8 [8, 4, 3, 3] i8 (Some 2) [])"
proof -
  let ?n = "example_node 8 [8, 4, 3, 3] i8 (Some 2) []"
  have h: "length (ng_inputs ?n) = 8" "is_null NullNode"
    by (simp_all add: example_node_def is_null_def)
  from null_bias_is_no_bias [OF h, of ?n] h show ?thesis
    by (simp add: example_with_null [symmetric])
qed



text \<open>
  C10. Every builder call inside the result of a conversion (the fast path, the
  bias-fused and the plain call, and each per-group call) is given as data dilations a
  sequence of ones as long as the kernel shape. No attribute of the operator sets the
  values.
\<close>

theorem data_dilations_all_ones:
  assumes "quant_conv node = Inr ns" "c \<in> set (concat (map primitive_calls ns))"
  shows "data_dilations_of c = Some (replicate (length (get_kernel_shape node)) 1)"
  using quant_conv_calls [OF assms]
  by (elim exE disjE) (simp_all add: data_dilations_of_def fast_path_call_def group_call_def)

theorem data_dilations_all_ones_witness:
  "quant_conv (example_node 8 [8, 4, 3, 3] i8 (Some 2) []) =
     Inr [Concat [example_call 0, example_call 1] 1] \<and>
   example_call 1 \<in> set (concat (map primitive_calls [Concat [example_call 0, example_call 1] 1])) \<and>
   data_dilations_of (example_call 1) = Some [1, 1]"
proof -
  have c: "example_call 1 \<in>
      set (concat (map primitive_calls [Concat [example_call 0, example_call 1] 1]))"
    by (simp add: example_call_def)
  have k: "replicate (length (get_kernel_shape (example_node 8 [8, 4, 3, 3] i8 (Some 2) []))) 1
      = [1, 1 :: nat]"
    by (simp add: get_kernel_shape_def example_node_def numeral_2_eq_2)
  from data_dilations_all_ones [OF example_groups_run c] c k example_groups_run
  show ?thesis by simp
qed

end
